theory Spec2Isabelle
  imports Complex_Main
begin

section \<open>Numbers and game parameters\<close>

text \<open>
  The program computes in C++ \<^verbatim>\<open>float\<close>. The embedding reads every float as a real
  number and every float literal as the decimal it is written as: rounding, infinities and
  NaN are outside the model. All control flow of the program (comparisons, state
  transitions, loops) is kept as written.
\<close>

definition ship_LINEAR_SPEED :: real where
  "ship_LINEAR_SPEED = 0.5"

definition ship_ANGULAR_SPEED :: real where
  "ship_ANGULAR_SPEED = 0.5"

definition aircraft_LINEAR_SPEED :: real where
  "aircraft_LINEAR_SPEED = 2"

definition aircraft_ANGULAR_SPEED :: real where
  "aircraft_ANGULAR_SPEED = 2.5"

definition FLIGHT_TIME :: real where
  "FLIGHT_TIME = 10"

definition REFUEL_TIME :: real where
  "REFUEL_TIME = 3"

text \<open>\<^verbatim>\<open>params::PI\<close>: the literal of the source, not the number \<open>pi\<close>.\<close>

definition PI :: real where
  "PI = 3.14159265358979"

text \<open>
  \<^verbatim>\<open>std::atan2\<close> of the C library, on real numbers: the angle in \<open>(-pi, pi]\<close> of the
  point \<open>(x, y)\<close>, and \<open>0\<close> at the origin.
\<close>

definition atan2 :: "real \<Rightarrow> real \<Rightarrow> real" where
  "atan2 b a =
     (if 0 < a then arctan (b / a)
      else if a < 0 then (if 0 \<le> b then arctan (b / a) + pi else arctan (b / a) - pi)
      else if 0 < b then pi / 2
      else if b < 0 then - (pi / 2)
      else 0)"

section \<open>Vector2\<close>

datatype Vector2 = Vector2 (vx: real) (vy: real)

text \<open>\<^verbatim>\<open>operator +\<close>, \<^verbatim>\<open>operator -\<close>, \<^verbatim>\<open>operator *\<close> (scalar on the left) and \<^verbatim>\<open>Vector2::length\<close>.\<close>

definition vec_add :: "Vector2 \<Rightarrow> Vector2 \<Rightarrow> Vector2" where
  "vec_add left right = Vector2 (vx left + vx right) (vy left + vy right)"

definition vec_sub :: "Vector2 \<Rightarrow> Vector2 \<Rightarrow> Vector2" where
  "vec_sub left right = Vector2 (vx left - vx right) (vy left - vy right)"

definition vec_scale :: "real \<Rightarrow> Vector2 \<Rightarrow> Vector2" where
  "vec_scale left right = Vector2 (left * vx right) (left * vy right)"

definition length_Vector2 :: "Vector2 \<Rightarrow> real" where
  "length_Vector2 v = sqrt (vx v * vx v + vy v * vy v)"

section \<open>The scene framework\<close>

text \<open>
  A mesh pointer is \<open>None\<close> (the null pointer) or \<open>Some h\<close> for a handle \<open>h\<close>. The scene
  holds the meshes that exist, each with its kind and its placement \<open>(x, y, angle)\<close>,
  and the goal marker.
\<close>

datatype MeshKind = ShipMesh | AircraftMesh

record Scene =
  next_mesh :: nat
  meshes :: "nat \<rightharpoonup> MeshKind \<times> real \<times> real \<times> real"
  goalMarker :: "(real \<times> real) option"

text \<open>
  Modelled from the spec: the functions of \<^verbatim>\<open>framework/scene.hpp\<close>, which is not among
  the sources. The spec lists them as the collaborator interface: create and destroy a
  ship visual or an aircraft visual, place a visual at \<open>(x, y, angle)\<close>, place the goal
  marker. A created mesh gets a handle never used before. Destroying through the null
  pointer does nothing. Placing through a pointer to no existing mesh is outside the
  interface; the model leaves the scene as it is there.
\<close>

definition createShipMesh :: "Scene \<Rightarrow> nat option \<times> Scene" where
  "createShipMesh sc =
     (Some (next_mesh sc),
      sc\<lparr>next_mesh := Suc (next_mesh sc),
         meshes := (meshes sc)(next_mesh sc \<mapsto> (ShipMesh, 0, 0, 0))\<rparr>)"

definition createAircraftMesh :: "Scene \<Rightarrow> nat option \<times> Scene" where
  "createAircraftMesh sc =
     (Some (next_mesh sc),
      sc\<lparr>next_mesh := Suc (next_mesh sc),
         meshes := (meshes sc)(next_mesh sc \<mapsto> (AircraftMesh, 0, 0, 0))\<rparr>)"

definition destroyMesh :: "nat option \<Rightarrow> Scene \<Rightarrow> Scene" where
  "destroyMesh m sc =
     (case m of None \<Rightarrow> sc | Some h \<Rightarrow> sc\<lparr>meshes := (meshes sc)(h := None)\<rparr>)"

definition placeMesh :: "nat option \<Rightarrow> real \<Rightarrow> real \<Rightarrow> real \<Rightarrow> Scene \<Rightarrow> Scene" where
  "placeMesh m px py ang sc =
     (case m of
        None \<Rightarrow> sc
      | Some h \<Rightarrow>
          (case meshes sc h of
             None \<Rightarrow> sc
           | Some (k, _) \<Rightarrow> sc\<lparr>meshes := (meshes sc)(h \<mapsto> (k, px, py, ang))\<rparr>))"

definition placeGoalMarker :: "real \<Rightarrow> real \<Rightarrow> Scene \<Rightarrow> Scene" where
  "placeGoalMarker px py sc = sc\<lparr>goalMarker := Some (px, py)\<rparr>"

text \<open>
  Modelled from the spec: the key enumeration of \<^verbatim>\<open>framework/game.hpp\<close>, which is not
  among the sources. The spec names the keys FORWARD, BACKWARD, LEFT and RIGHT; the model
  numbers them in this order.
\<close>

definition KEY_FORWARD :: int where
  "KEY_FORWARD = 0"

definition KEY_BACKWARD :: int where
  "KEY_BACKWARD = 1"

definition KEY_LEFT :: int where
  "KEY_LEFT = 2"

definition KEY_RIGHT :: int where
  "KEY_RIGHT = 3"

definition KEY_COUNT :: int where
  "KEY_COUNT = 4"

section \<open>Data model\<close>

datatype AircraftState = IDLE | TAKEOFF | FLY | HOVER | LAND | REFUEL

text \<open>
  A pointer to the one ship or to the one aircraft array of the game: null, or bound to
  it. The object it points to is passed to the functions that read through it.
\<close>

datatype ref = nullptr | bound

record Aircraft =
  mesh :: "nat option"
  position :: Vector2
  angle :: real
  acceleration :: real
  linearSpeed :: real
  takeoffTime :: real
  flightTime :: real
  landingTime :: real
  targetPosition :: Vector2
  hoverRaduis :: real
  hoverAngle :: real
  owningShip :: ref
  state :: AircraftState

text \<open>
  The fields of \<^verbatim>\<open>Ship\<close> carry the prefix \<open>ship_\<close>, since \<^verbatim>\<open>Aircraft\<close> has fields of the
  same names. The array \<^verbatim>\<open>input\<close> is the function from a key index to its flag.
\<close>

record Ship =
  ship_mesh :: "nat option"
  ship_position :: Vector2
  ship_angle :: real
  ship_linearSpeed :: real
  input :: "int \<Rightarrow> bool"
  ship_planes :: ref

datatype fault = AssertionFailed | NullDereference

section \<open>Aircraft\<close>

text \<open>
  \<^verbatim>\<open>Aircraft::Aircraft()\<close> on an object of static storage: the memory is zeroed, the
  vectors are built by \<^verbatim>\<open>Vector2()\<close>, and the constructor sets \<^verbatim>\<open>mesh\<close> to null.
\<close>

definition Aircraft_new :: Aircraft where
  "Aircraft_new =
     \<lparr>mesh = None, position = Vector2 0 0, angle = 0, acceleration = 0, linearSpeed = 0,
      takeoffTime = 0, flightTime = 0, landingTime = 0, targetPosition = Vector2 0 0,
      hoverRaduis = 0, hoverAngle = 0, owningShip = nullptr, state = IDLE\<rparr>"

definition Aircraft_init :: "Aircraft \<Rightarrow> Aircraft" where
  "Aircraft_init a =
     a\<lparr>position := Vector2 0 0, angle := 0, acceleration := 1, linearSpeed := 0,
       takeoffTime := 2, flightTime := 0, landingTime := 0,
       hoverRaduis := 1, hoverAngle := 0,
       owningShip := bound, state := IDLE\<rparr>"

definition Aircraft_deinit :: "Aircraft \<Rightarrow> Scene \<Rightarrow> Aircraft \<times> Scene" where
  "Aircraft_deinit a sc = (a\<lparr>mesh := None\<rparr>, destroyMesh (mesh a) sc)"

definition setTarget :: "Vector2 \<Rightarrow> Aircraft \<Rightarrow> Aircraft" where
  "setTarget p a = a\<lparr>targetPosition := p\<rparr>"

definition readyToFly :: "Aircraft \<Rightarrow> bool" where
  "readyToFly a = (state a = IDLE)"

definition inFlight :: "Aircraft \<Rightarrow> bool" where
  "inFlight a = (state a \<noteq> IDLE \<and> state a \<noteq> REFUEL)"

text \<open>The functions that read \<^verbatim>\<open>owningShip\<close> take the ship it points to as \<open>owner\<close>.\<close>

definition launch :: "Ship \<Rightarrow> Aircraft \<Rightarrow> Scene \<Rightarrow> Aircraft \<times> Scene" where
  "launch owner a sc =
     (let (m, sc1) = createAircraftMesh sc;
          a1 = a\<lparr>mesh := m, position := ship_position owner, angle := ship_angle owner\<rparr>;
          sc2 = placeMesh (mesh a1) (vx (position a1)) (vy (position a1)) (angle a1) sc1
      in (a1\<lparr>state := TAKEOFF\<rparr>, sc2))"

definition takeoff :: "Ship \<Rightarrow> real \<Rightarrow> Aircraft \<Rightarrow> Aircraft" where
  "takeoff owner dt a =
     (let a1 = (if flightTime a \<ge> takeoffTime a then a\<lparr>state := FLY\<rparr> else a);
          a2 = a1\<lparr>angle := ship_angle owner\<rparr>;
          speed = linearSpeed a2 + ship_linearSpeed owner
      in a2\<lparr>position :=
             vec_add (position a2)
               (vec_scale (speed * dt) (Vector2 (cos (angle a2)) (sin (angle a2))))\<rparr>)"

definition fly :: "real \<Rightarrow> Aircraft \<Rightarrow> Aircraft" where
  "fly dt a =
     (let radiusToTarget = length_Vector2 (vec_sub (targetPosition a) (position a))
      in if radiusToTarget \<le> hoverRaduis a
         then a\<lparr>state := HOVER, hoverAngle := angle a + PI\<rparr>
         else
           (let a1 = a\<lparr>angle := atan2 (vy (targetPosition a) - vy (position a))
                                     (vx (targetPosition a) - vx (position a))\<rparr>
            in a1\<lparr>position :=
                    vec_add (position a1)
                      (vec_scale (linearSpeed a1 * dt)
                         (Vector2 (cos (angle a1)) (sin (angle a1))))\<rparr>))"

definition hover :: "real \<Rightarrow> Aircraft \<Rightarrow> Aircraft" where
  "hover dt a =
     (let radiusToTarget = length_Vector2 (vec_sub (targetPosition a) (position a));
          errorTolerance = 0.000001
      in if radiusToTarget > hoverRaduis a + errorTolerance
         then a\<lparr>state := FLY\<rparr>
         else
           (let a1 = (if flightTime a \<ge> FLIGHT_TIME then a\<lparr>state := LAND\<rparr> else a);
                a2 = a1\<lparr>angle := hoverAngle a1 + PI / 2\<rparr>;
                a3 = a2\<lparr>hoverAngle := hoverAngle a2 + aircraft_ANGULAR_SPEED * dt\<rparr>;
                posX = vx (targetPosition a3) + cos (hoverAngle a3) * hoverRaduis a3;
                posY = vy (targetPosition a3) + sin (hoverAngle a3) * hoverRaduis a3
            in a3\<lparr>position := Vector2 posX posY\<rparr>))"

definition land :: "Ship \<Rightarrow> real \<Rightarrow> Aircraft \<Rightarrow> Scene \<Rightarrow> Aircraft \<times> Scene" where
  "land owner dt a sc =
     (let landingPos = ship_position owner;
          distanceToShip = length_Vector2 (vec_sub landingPos (position a));
          (a1, sc1) =
            (if distanceToShip \<le> 0.1
             then (a\<lparr>state := REFUEL, landingTime := flightTime a\<rparr>, destroyMesh (mesh a) sc)
             else (a, sc));
          a2 = a1\<lparr>angle := atan2 (vy landingPos - vy (position a1))
                                  (vx landingPos - vx (position a1))\<rparr>
      in (a2\<lparr>position :=
                vec_add (position a2)
                  (vec_scale (linearSpeed a2 * dt)
                     (Vector2 (cos (angle a2)) (sin (angle a2))))\<rparr>,
          sc1))"

definition refuel :: "real \<Rightarrow> Aircraft \<Rightarrow> Aircraft" where
  "refuel dt a =
     (let a1 = a\<lparr>landingTime := landingTime a + dt\<rparr>
      in if landingTime a1 > flightTime a1 + REFUEL_TIME
         then a1\<lparr>state := IDLE, linearSpeed := 0, flightTime := 0, landingTime := 0\<rparr>
         else a1)"

definition simulateFlight :: "real \<Rightarrow> Aircraft \<Rightarrow> Scene \<Rightarrow> Aircraft \<times> Scene" where
  "simulateFlight dt a sc =
     (if \<not> inFlight a then (a, sc)
      else
        (let newSpeed = linearSpeed a + acceleration a * dt;
             maxSpeed = aircraft_LINEAR_SPEED;
             a1 = (if newSpeed \<le> maxSpeed then a\<lparr>linearSpeed := newSpeed\<rparr>
                   else a\<lparr>linearSpeed := maxSpeed\<rparr>);
             a2 = a1\<lparr>flightTime := flightTime a1 + dt\<rparr>
         in (a2, placeMesh (mesh a2) (vx (position a2)) (vy (position a2)) (angle a2) sc)))"

definition Aircraft_update :: "Ship \<Rightarrow> real \<Rightarrow> Aircraft \<Rightarrow> Scene \<Rightarrow> Aircraft \<times> Scene" where
  "Aircraft_update owner dt a sc =
     (let (a1, sc1) =
            (case state a of
               TAKEOFF \<Rightarrow> (takeoff owner dt a, sc)
             | FLY \<Rightarrow> (fly dt a, sc)
             | HOVER \<Rightarrow> (hover dt a, sc)
             | LAND \<Rightarrow> land owner dt a sc
             | REFUEL \<Rightarrow> (refuel dt a, sc)
             | IDLE \<Rightarrow> (a, sc))
      in simulateFlight dt a1 sc1)"

section \<open>Ship\<close>

text \<open>\<^verbatim>\<open>Ship::Ship()\<close> on an object of static storage, as for the aircraft.\<close>

definition Ship_new :: Ship where
  "Ship_new =
     \<lparr>ship_mesh = None, ship_position = Vector2 0 0, ship_angle = 0, ship_linearSpeed = 0,
      input = (\<lambda>key. False), ship_planes = nullptr\<rparr>"

text \<open>The assertion \<^verbatim>\<open>assert( !mesh )\<close> is the fault \<open>AssertionFailed\<close>.\<close>

definition Ship_init :: "Ship \<Rightarrow> Scene \<Rightarrow> fault + Ship \<times> Scene" where
  "Ship_init s sc =
     (if ship_mesh s \<noteq> None then Inl AssertionFailed
      else
        (let (m, sc1) = createShipMesh sc
         in Inr (s\<lparr>ship_mesh := m, ship_position := Vector2 0 0, ship_angle := 0,
                   input := (\<lambda>key. False), ship_planes := bound\<rparr>,
                 sc1)))"

definition Ship_deinit :: "Ship \<Rightarrow> Scene \<Rightarrow> Ship \<times> Scene" where
  "Ship_deinit s sc = (s\<lparr>ship_mesh := None\<rparr>, destroyMesh (ship_mesh s) sc)"

definition Ship_update :: "real \<Rightarrow> Ship \<Rightarrow> Scene \<Rightarrow> Ship \<times> Scene" where
  "Ship_update dt s sc =
     (let s1 = s\<lparr>ship_linearSpeed := 0\<rparr>;
          angularSpeed0 = 0;
          s2 = (if input s1 KEY_FORWARD then s1\<lparr>ship_linearSpeed := ship_LINEAR_SPEED\<rparr>
                else if input s1 KEY_BACKWARD
                  then s1\<lparr>ship_linearSpeed := - ship_LINEAR_SPEED\<rparr>
                else s1);
          angularSpeed =
            (if input s2 KEY_LEFT \<and> ship_linearSpeed s2 \<noteq> 0 then ship_ANGULAR_SPEED
             else if input s2 KEY_RIGHT \<and> ship_linearSpeed s2 \<noteq> 0
               then - ship_ANGULAR_SPEED
             else angularSpeed0);
          s3 = s2\<lparr>ship_angle := ship_angle s2 + angularSpeed * dt\<rparr>;
          s4 = s3\<lparr>ship_position :=
                    vec_add (ship_position s3)
                      (vec_scale (ship_linearSpeed s3 * dt)
                         (Vector2 (cos (ship_angle s3)) (sin (ship_angle s3))))\<rparr>
      in (s4,
          placeMesh (ship_mesh s4) (vx (ship_position s4)) (vy (ship_position s4))
            (ship_angle s4) sc))"

definition Ship_keyPressed :: "int \<Rightarrow> Ship \<Rightarrow> fault + Ship" where
  "Ship_keyPressed key s =
     (if 0 \<le> key \<and> key < KEY_COUNT then Inr (s\<lparr>input := (input s)(key := True)\<rparr>)
      else Inl AssertionFailed)"

definition Ship_keyReleased :: "int \<Rightarrow> Ship \<Rightarrow> fault + Ship" where
  "Ship_keyReleased key s =
     (if 0 \<le> key \<and> key < KEY_COUNT then Inr (s\<lparr>input := (input s)(key := False)\<rparr>)
      else Inl AssertionFailed)"

text \<open>
  The loops of \<^verbatim>\<open>Ship::mouseClicked\<close> over the aircraft array. \<open>launch_first\<close> is the loop
  of the right button: it launches the first aircraft that is ready and stops there.
\<close>

fun launch_first :: "Ship \<Rightarrow> Aircraft list \<Rightarrow> Scene \<Rightarrow> Aircraft list \<times> Scene" where
  "launch_first owner [] sc = ([], sc)"
| "launch_first owner (plane # rest) sc =
     (if readyToFly plane
      then (let (plane1, sc1) = launch owner plane sc in (plane1 # rest, sc1))
      else (let (rest1, sc1) = launch_first owner rest sc in (plane # rest1, sc1)))"

text \<open>
  \<open>ps\<close> is the array \<^verbatim>\<open>*planes\<close>; reading through a null \<^verbatim>\<open>planes\<close> is the fault
  \<open>NullDereference\<close>.
\<close>

definition Ship_mouseClicked ::
  "Vector2 \<Rightarrow> bool \<Rightarrow> Ship \<Rightarrow> Aircraft list \<Rightarrow> Scene \<Rightarrow> fault + Aircraft list \<times> Scene" where
  "Ship_mouseClicked worldPosition isLeftButton s ps sc =
     (if ship_planes s = nullptr then Inl NullDereference
      else if isLeftButton
        then Inr (map (setTarget worldPosition) ps,
                  placeGoalMarker (vx worldPosition) (vy worldPosition) sc)
      else Inr (launch_first s ps sc))"

section \<open>The game\<close>

record Game =
  ship :: Ship
  planes :: "Aircraft list"
  scene :: Scene

text \<open>The state at process start: the globals \<^verbatim>\<open>ship\<close> and \<^verbatim>\<open>planes\<close>, and an empty scene.\<close>

definition game_start :: Game where
  "game_start =
     \<lparr>ship = Ship_new, planes = replicate 5 Aircraft_new,
      scene = \<lparr>next_mesh = 0, meshes = Map.empty, goalMarker = None\<rparr>\<rparr>"

definition game_init :: "Game \<Rightarrow> fault + Game" where
  "game_init g =
     (case Ship_init (ship g) (scene g) of
        Inl e \<Rightarrow> Inl e
      | Inr (s, sc) \<Rightarrow> Inr \<lparr>ship = s, planes = map Aircraft_init (planes g), scene = sc\<rparr>)"

fun deinit_planes :: "Aircraft list \<Rightarrow> Scene \<Rightarrow> Aircraft list \<times> Scene" where
  "deinit_planes [] sc = ([], sc)"
| "deinit_planes (plane # rest) sc =
     (let (plane1, sc1) = (if inFlight plane then Aircraft_deinit plane sc else (plane, sc));
          (rest1, sc2) = deinit_planes rest sc1
      in (plane1 # rest1, sc2))"

definition game_deinit :: "Game \<Rightarrow> Game" where
  "game_deinit g =
     (let (s, sc1) = Ship_deinit (ship g) (scene g);
          (ps, sc2) = deinit_planes (planes g) sc1
      in \<lparr>ship = s, planes = ps, scene = sc2\<rparr>)"

fun update_planes :: "Ship \<Rightarrow> real \<Rightarrow> Aircraft list \<Rightarrow> Scene \<Rightarrow> Aircraft list \<times> Scene" where
  "update_planes owner dt [] sc = ([], sc)"
| "update_planes owner dt (plane # rest) sc =
     (let (plane1, sc1) = Aircraft_update owner dt plane sc;
          (rest1, sc2) = update_planes owner dt rest sc1
      in (plane1 # rest1, sc2))"

definition game_update :: "real \<Rightarrow> Game \<Rightarrow> Game" where
  "game_update dt g =
     (let (s, sc1) = Ship_update dt (ship g) (scene g);
          (ps, sc2) = update_planes s dt (planes g) sc1
      in \<lparr>ship = s, planes = ps, scene = sc2\<rparr>)"

definition game_keyPressed :: "int \<Rightarrow> Game \<Rightarrow> fault + Game" where
  "game_keyPressed key g =
     (case Ship_keyPressed key (ship g) of
        Inl e \<Rightarrow> Inl e
      | Inr s \<Rightarrow> Inr (g\<lparr>ship := s\<rparr>))"

definition game_keyReleased :: "int \<Rightarrow> Game \<Rightarrow> fault + Game" where
  "game_keyReleased key g =
     (case Ship_keyReleased key (ship g) of
        Inl e \<Rightarrow> Inl e
      | Inr s \<Rightarrow> Inr (g\<lparr>ship := s\<rparr>))"

text \<open>
  \<^verbatim>\<open>scene::screenToWorld\<close> belongs to the framework and is not among the sources: it is
  the parameter \<open>screenToWorld\<close>.
\<close>

definition game_mouseClicked ::
  "(Vector2 \<Rightarrow> Vector2) \<Rightarrow> real \<Rightarrow> real \<Rightarrow> bool \<Rightarrow> Game \<Rightarrow> fault + Game" where
  "game_mouseClicked screenToWorld px py isLeftButton g =
     (let worldPosition = screenToWorld (Vector2 px py)
      in case Ship_mouseClicked worldPosition isLeftButton (ship g) (planes g) (scene g) of
           Inl e \<Rightarrow> Inl e
         | Inr (ps, sc) \<Rightarrow> Inr (g\<lparr>planes := ps, scene := sc\<rparr>))"

section \<open>Running the game\<close>

text \<open>
  The calls the framework makes on the game between \<^verbatim>\<open>game::init\<close> and \<^verbatim>\<open>game::deinit\<close>:
  a frame of \<open>dt\<close> time units, a key going down or up, a mouse click at screen
  coordinates.
\<close>

datatype event = Update real | KeyPressed int | KeyReleased int | MouseClicked real real bool

fun game_event :: "(Vector2 \<Rightarrow> Vector2) \<Rightarrow> event \<Rightarrow> Game \<Rightarrow> fault + Game" where
  "game_event screenToWorld (Update dt) g = Inr (game_update dt g)"
| "game_event screenToWorld (KeyPressed key) g = game_keyPressed key g"
| "game_event screenToWorld (KeyReleased key) g = game_keyReleased key g"
| "game_event screenToWorld (MouseClicked px py isLeftButton) g =
     game_mouseClicked screenToWorld px py isLeftButton g"

fun game_run :: "(Vector2 \<Rightarrow> Vector2) \<Rightarrow> event list \<Rightarrow> Game \<Rightarrow> fault + Game" where
  "game_run screenToWorld [] g = Inr g"
| "game_run screenToWorld (e # es) g =
     (case game_event screenToWorld e g of
        Inl f \<Rightarrow> Inl f
      | Inr g1 \<Rightarrow> game_run screenToWorld es g1)"

text \<open>The elapsed time of a frame is not negative.\<close>

fun elapsed_ok :: "event \<Rightarrow> bool" where
  "elapsed_ok (Update dt) = (0 \<le> dt)"
| "elapsed_ok (KeyPressed key) = True"
| "elapsed_ok (KeyReleased key) = True"
| "elapsed_ok (MouseClicked px py isLeftButton) = True"

text \<open>
  The reachable states of the running game: the state after \<^verbatim>\<open>game::init\<close> at process
  start, and from a reachable state the state after any event that raises no fault, and
  the state after \<^verbatim>\<open>game::deinit\<close> followed by \<^verbatim>\<open>game::init\<close>.
\<close>

inductive reachable :: "Game \<Rightarrow> bool" where
  start: "game_init game_start = Inr g \<Longrightarrow> reachable g"
| event: "reachable g \<Longrightarrow> elapsed_ok e \<Longrightarrow> game_event screenToWorld e g = Inr g1 \<Longrightarrow> reachable g1"
| restart: "reachable g \<Longrightarrow> game_init (game_deinit g) = Inr g1 \<Longrightarrow> reachable g1"

text \<open>
  What \<^verbatim>\<open>Aircraft::init\<close> fixes and the updates keep: the constants of the aircraft, the
  range of its speed, and the timers of an idle aircraft.
\<close>

definition plane_ok :: "Aircraft \<Rightarrow> bool" where
  "plane_ok a =
     (acceleration a = 1 \<and> takeoffTime a = 2 \<and> hoverRaduis a = 1 \<and> owningShip a = bound
      \<and> 0 \<le> linearSpeed a \<and> linearSpeed a \<le> 2
      \<and> (state a = IDLE \<longrightarrow> linearSpeed a = 0 \<and> flightTime a = 0 \<and> landingTime a = 0))"

text \<open>
  The mesh of an aircraft exists in the scene exactly while the aircraft is in flight; a
  null pointer belongs to an aircraft that is not in flight.
\<close>

definition visual_ok :: "Scene \<Rightarrow> Aircraft \<Rightarrow> bool" where
  "visual_ok sc a =
     (case mesh a of
        None \<Rightarrow> \<not> inFlight a
      | Some h \<Rightarrow> h < next_mesh sc \<and> (h \<in> dom (meshes sc)) = inFlight a)"

fun plane_handles :: "Aircraft list \<Rightarrow> nat list" where
  "plane_handles [] = []"
| "plane_handles (a # rest) =
     (case mesh a of None \<Rightarrow> plane_handles rest | Some h \<Rightarrow> h # plane_handles rest)"

definition visuals_ok :: "Scene \<Rightarrow> Aircraft list \<Rightarrow> bool" where
  "visuals_ok sc ps =
     ((\<forall>a \<in> set ps. visual_ok sc a) \<and> distinct (plane_handles ps)
      \<and> (\<forall>h \<in> dom (meshes sc). h < next_mesh sc))"

text \<open>
  The meshes of the scene are the mesh of the ship and the meshes of the aircraft in
  flight, and no others; the handle of the ship is not the handle of any aircraft.
\<close>

definition flying_handles :: "Aircraft list \<Rightarrow> nat set" where
  "flying_handles ps = {h. \<exists>a \<in> set ps. inFlight a \<and> mesh a = Some h}"

definition scene_ok :: "Game \<Rightarrow> bool" where
  "scene_ok g =
     (\<exists>hs. ship_mesh (ship g) = Some hs \<and> hs < next_mesh (scene g)
        \<and> hs \<notin> set (plane_handles (planes g))
        \<and> dom (meshes (scene g)) = insert hs (flying_handles (planes g)))"

section \<open>The state sequence of a flight\<close>








section \<open>Concrete runs\<close>

text \<open>The game after \<^verbatim>\<open>game::init\<close> at process start.\<close>

definition ship_ready :: Ship where
  "ship_ready =
     \<lparr>ship_mesh = Some 0, ship_position = Vector2 0 0, ship_angle = 0, ship_linearSpeed = 0,
      input = (\<lambda>key. False), ship_planes = bound\<rparr>"

definition plane_ready :: Aircraft where
  "plane_ready =
     \<lparr>mesh = None, position = Vector2 0 0, angle = 0, acceleration = 1, linearSpeed = 0,
      takeoffTime = 2, flightTime = 0, landingTime = 0, targetPosition = Vector2 0 0,
      hoverRaduis = 1, hoverAngle = 0, owningShip = bound, state = IDLE\<rparr>"

definition game_ready :: Game where
  "game_ready =
     \<lparr>ship = ship_ready, planes = replicate 5 plane_ready,
      scene = \<lparr>next_mesh = 1, meshes = [0 \<mapsto> (ShipMesh, 0, 0, 0)], goalMarker = None\<rparr>\<rparr>"

text \<open>
  The aircraft after the frames \<open>dts\<close>, each read with the same ship \<open>owner\<close>; the scene
  has no influence on the aircraft.
\<close>

fun solo :: "Ship \<Rightarrow> real list \<Rightarrow> Aircraft \<Rightarrow> Aircraft" where
  "solo owner [] a = a"
| "solo owner (dt # dts) a =
     solo owner dts (fst (Aircraft_update owner dt a (scene game_start)))"

text \<open>
  An aircraft of the game after its launch, with the mesh created first after the ship's:
  its target, state, position, angle, speed, flight time, landing time and hover angle.
\<close>

definition airborne ::
  "Vector2 \<Rightarrow> AircraftState \<Rightarrow> Vector2 \<Rightarrow> real \<Rightarrow> real \<Rightarrow> real \<Rightarrow> real \<Rightarrow> real \<Rightarrow> Aircraft" where
  "airborne tgt st pos ang spd ft lt hov =
     \<lparr>mesh = Some 1, position = pos, angle = ang, acceleration = 1, linearSpeed = spd,
      takeoffTime = 2, flightTime = ft, landingTime = lt, targetPosition = tgt,
      hoverRaduis = 1, hoverAngle = hov, owningShip = bound, state = st\<rparr>"

text \<open>
  A run with the ship at rest at the origin and the target at the origin: a right click
  launches the first aircraft, and nine frames take it through the takeoff, to the target,
  around it, and back onto the ship.
\<close>

definition landing_events :: "event list" where
  "landing_events =
     [MouseClicked 0 0 False, Update 2, Update 0.5, Update 2, Update 2, Update 2, Update 2,
      Update 2, Update 0.5, Update 2]"


section \<open>Properties of single operations\<close>

text \<open>
  C10. \<^verbatim>\<open>setTarget(p)\<close> sets the target position to \<open>p\<close> and changes no other field of
  the aircraft: the state, the position, the angle, the speed, the three timers, the hover
  angle and the mesh pointer are what they were, in every state of the aircraft.
\<close>

theorem setTarget_changes_only_target:
  "targetPosition (setTarget p a) = p
   \<and> state (setTarget p a) = state a
   \<and> position (setTarget p a) = position a
   \<and> angle (setTarget p a) = angle a
   \<and> linearSpeed (setTarget p a) = linearSpeed a
   \<and> acceleration (setTarget p a) = acceleration a
   \<and> takeoffTime (setTarget p a) = takeoffTime a
   \<and> flightTime (setTarget p a) = flightTime a
   \<and> landingTime (setTarget p a) = landingTime a
   \<and> hoverRaduis (setTarget p a) = hoverRaduis a
   \<and> hoverAngle (setTarget p a) = hoverAngle a
   \<and> owningShip (setTarget p a) = owningShip a
   \<and> mesh (setTarget p a) = mesh a"
  by (simp add: setTarget_def)

text \<open>
  C9. After \<^verbatim>\<open>Ship::update(dt)\<close> the linear speed of the ship is \<open>0.5\<close> when the forward
  key is held, otherwise \<open>-0.5\<close> when the backward key is held, otherwise \<open>0\<close>; the
  linear speed before the call has no influence on it.
\<close>

theorem Ship_update_linearSpeed:
  "ship_linearSpeed (fst (Ship_update dt s sc)) =
     (if input s KEY_FORWARD then 0.5 else if input s KEY_BACKWARD then - 0.5 else 0)
   \<and> ship_linearSpeed (fst (Ship_update dt (s\<lparr>ship_linearSpeed := v\<rparr>) sc)) =
       ship_linearSpeed (fst (Ship_update dt s sc))"
  by (simp add: Ship_update_def Let_def ship_LINEAR_SPEED_def)

text \<open>
  C7. When neither the forward key nor the backward key is held, \<^verbatim>\<open>Ship::update(dt)\<close>
  leaves the angle of the ship as it was, whatever the left and right keys are and for
  every \<open>dt\<close>.
\<close>

theorem Ship_update_no_turn_at_rest:
  "\<not> input s KEY_FORWARD \<Longrightarrow> \<not> input s KEY_BACKWARD \<Longrightarrow>
     ship_angle (fst (Ship_update dt s sc)) = ship_angle s"
  by (simp add: Ship_update_def Let_def)

theorem Ship_update_no_turn_at_rest_witness:
  "\<not> input (Ship_new\<lparr>input := (\<lambda>key. key = KEY_LEFT)\<rparr>) KEY_FORWARD
   \<and> \<not> input (Ship_new\<lparr>input := (\<lambda>key. key = KEY_LEFT)\<rparr>) KEY_BACKWARD
   \<and> input (Ship_new\<lparr>input := (\<lambda>key. key = KEY_LEFT)\<rparr>) KEY_LEFT
   \<and> ship_angle (fst (Ship_update 3 (Ship_new\<lparr>input := (\<lambda>key. key = KEY_LEFT)\<rparr>)
        (scene game_start))) = 0"
  using Ship_update_no_turn_at_rest
    [of "Ship_new\<lparr>input := (\<lambda>key. key = KEY_LEFT)\<rparr>" 3 "scene game_start"]
  by (simp add: Ship_new_def KEY_FORWARD_def KEY_BACKWARD_def KEY_LEFT_def)

section \<open>Invariants of the running game\<close>

subsection \<open>The fields of an aircraft\<close>

lemma simulateFlight_keeps:
  "state (fst (simulateFlight dt a sc)) = state a"
  "angle (fst (simulateFlight dt a sc)) = angle a"
  "position (fst (simulateFlight dt a sc)) = position a"
  "hoverAngle (fst (simulateFlight dt a sc)) = hoverAngle a"
  "targetPosition (fst (simulateFlight dt a sc)) = targetPosition a"
  "hoverRaduis (fst (simulateFlight dt a sc)) = hoverRaduis a"
  "mesh (fst (simulateFlight dt a sc)) = mesh a"
  "acceleration (fst (simulateFlight dt a sc)) = acceleration a"
  "takeoffTime (fst (simulateFlight dt a sc)) = takeoffTime a"
  "landingTime (fst (simulateFlight dt a sc)) = landingTime a"
  "owningShip (fst (simulateFlight dt a sc)) = owningShip a"
  by (simp_all add: simulateFlight_def Let_def)

lemma plane_ok_simulateFlight:
  "plane_ok a \<Longrightarrow> 0 \<le> dt \<Longrightarrow> plane_ok (fst (simulateFlight dt a sc))"
  by (auto simp add: plane_ok_def simulateFlight_def Let_def inFlight_def aircraft_LINEAR_SPEED_def)

lemma plane_ok_takeoff: "plane_ok a \<Longrightarrow> state a = TAKEOFF \<Longrightarrow> plane_ok (takeoff owner dt a)"
  by (simp add: plane_ok_def takeoff_def Let_def)

lemma plane_ok_fly: "plane_ok a \<Longrightarrow> state a = FLY \<Longrightarrow> plane_ok (fly dt a)"
  by (simp add: plane_ok_def fly_def Let_def)

lemma plane_ok_hover: "plane_ok a \<Longrightarrow> state a = HOVER \<Longrightarrow> plane_ok (hover dt a)"
  by (simp add: plane_ok_def hover_def Let_def)

lemma plane_ok_land: "plane_ok a \<Longrightarrow> state a = LAND \<Longrightarrow> plane_ok (fst (land owner dt a sc))"
  by (simp add: plane_ok_def land_def Let_def)

lemma plane_ok_refuel: "plane_ok a \<Longrightarrow> state a = REFUEL \<Longrightarrow> plane_ok (refuel dt a)"
  by (simp add: plane_ok_def refuel_def Let_def)

lemma plane_ok_update:
  assumes "plane_ok a" "0 \<le> dt"
  shows "plane_ok (fst (Aircraft_update owner dt a sc))"
proof (cases "state a")
  case IDLE
  with assms show ?thesis
    by (simp add: Aircraft_update_def plane_ok_simulateFlight)
next
  case TAKEOFF
  with assms show ?thesis
    by (simp add: Aircraft_update_def plane_ok_simulateFlight plane_ok_takeoff)
next
  case FLY
  with assms show ?thesis
    by (simp add: Aircraft_update_def plane_ok_simulateFlight plane_ok_fly)
next
  case HOVER
  with assms show ?thesis
    by (simp add: Aircraft_update_def plane_ok_simulateFlight plane_ok_hover)
next
  case LAND
  with assms show ?thesis
    by (simp add: Aircraft_update_def plane_ok_simulateFlight plane_ok_land split_beta)
next
  case REFUEL
  with assms show ?thesis
    by (simp add: Aircraft_update_def plane_ok_simulateFlight plane_ok_refuel)
qed

lemma plane_ok_init: "plane_ok (Aircraft_init a)"
  by (simp add: plane_ok_def Aircraft_init_def)

lemma plane_ok_setTarget: "plane_ok a \<Longrightarrow> plane_ok (setTarget p a)"
  by (simp add: plane_ok_def setTarget_def)

lemma plane_ok_launch: "plane_ok a \<Longrightarrow> plane_ok (fst (launch owner a sc))"
  by (simp add: plane_ok_def launch_def Let_def createAircraftMesh_def)

lemma length_update_planes:
  "length (fst (update_planes owner dt ps sc)) = length ps"
  by (induction ps arbitrary: sc) (simp_all add: split_beta)

lemma plane_ok_update_planes:
  "\<forall>a \<in> set ps. plane_ok a \<Longrightarrow> 0 \<le> dt \<Longrightarrow>
     \<forall>a \<in> set (fst (update_planes owner dt ps sc)). plane_ok a"
proof (induction ps arbitrary: sc)
  case Nil
  then show ?case by simp
next
  case (Cons p ps)
  obtain p1 sc1 where u: "Aircraft_update owner dt p sc = (p1, sc1)"
    by (cases "Aircraft_update owner dt p sc")
  have "plane_ok p1"
    using plane_ok_update [of p dt owner sc] Cons.prems u by simp
  moreover have "\<forall>a \<in> set (fst (update_planes owner dt ps sc1)). plane_ok a"
    using Cons by simp
  ultimately show ?case
    using u by (simp add: split_beta)
qed

lemma plane_ok_launch_first:
  "\<forall>a \<in> set ps. plane_ok a \<Longrightarrow> \<forall>a \<in> set (fst (launch_first owner ps sc)). plane_ok a"
proof (induction ps arbitrary: sc)
  case Nil
  then show ?case by simp
next
  case (Cons p ps)
  show ?case
  proof (cases "readyToFly p")
    case True
    then show ?thesis
      using Cons.prems plane_ok_launch [of p owner sc] by (simp add: split_beta)
  next
    case False
    then show ?thesis
      using Cons by (simp add: split_beta)
  qed
qed

lemma planes_game_update:
  "planes (game_update dt g) =
     fst (update_planes (fst (Ship_update dt (ship g) (scene g))) dt (planes g)
            (snd (Ship_update dt (ship g) (scene g))))"
  by (simp add: game_update_def Let_def split: prod.splits)

lemma game_init_planes:
  "game_init g = Inr g1 \<Longrightarrow> planes g1 = map Aircraft_init (planes g)"
  by (auto simp add: game_init_def split: sum.splits prod.splits)

lemma planes_ok_event:
  "game_event stw e g = Inr g1 \<Longrightarrow> elapsed_ok e \<Longrightarrow> \<forall>a \<in> set (planes g). plane_ok a \<Longrightarrow>
     \<forall>a \<in> set (planes g1). plane_ok a"
proof (cases e)
  case (Update dt)
  assume "game_event stw e g = Inr g1" "elapsed_ok e" "\<forall>a \<in> set (planes g). plane_ok a"
  with Update show ?thesis
    using plane_ok_update_planes by (auto simp add: planes_game_update)
next
  case (KeyPressed k)
  assume "game_event stw e g = Inr g1" "\<forall>a \<in> set (planes g). plane_ok a"
  with KeyPressed show ?thesis
    by (auto simp add: game_keyPressed_def split: sum.splits)
next
  case (KeyReleased k)
  assume "game_event stw e g = Inr g1" "\<forall>a \<in> set (planes g). plane_ok a"
  with KeyReleased show ?thesis
    by (auto simp add: game_keyReleased_def split: sum.splits)
next
  case (MouseClicked px py l)
  assume a: "game_event stw e g = Inr g1" "\<forall>a \<in> set (planes g). plane_ok a"
  show ?thesis
  proof (cases l)
    case True
    with a MouseClicked show ?thesis
      by (auto simp add: game_mouseClicked_def Ship_mouseClicked_def Let_def plane_ok_setTarget
          split: sum.splits if_splits)
  next
    case False
    with a MouseClicked plane_ok_launch_first [of "planes g" "ship g" "scene g"] show ?thesis
      by (auto simp add: game_mouseClicked_def Ship_mouseClicked_def Let_def
          split: sum.splits if_splits)
  qed
qed

lemma reachable_planes_ok: "reachable g \<Longrightarrow> \<forall>a \<in> set (planes g). plane_ok a"
proof (induction rule: reachable.induct)
  case (start g)
  then show ?case by (auto simp add: game_init_planes plane_ok_init)
next
  case (event g e stw g1)
  then show ?case using planes_ok_event by blast
next
  case (restart g g1)
  then show ?case by (auto simp add: game_init_planes plane_ok_init)
qed


subsection \<open>The scene under the operations\<close>

lemma placeMesh_frame:
  "next_mesh (placeMesh m px py ang sc) = next_mesh sc"
  "dom (meshes (placeMesh m px py ang sc)) = dom (meshes sc)"
  by (auto simp add: placeMesh_def split: option.splits)

lemma destroyMesh_frame:
  "next_mesh (destroyMesh m sc) = next_mesh sc"
  "dom (meshes (destroyMesh m sc)) = dom (meshes sc) - set_option m"
  by (auto simp add: destroyMesh_def split: option.splits)

lemma simulateFlight_scene:
  "next_mesh (snd (simulateFlight dt a sc)) = next_mesh sc"
  "dom (meshes (snd (simulateFlight dt a sc))) = dom (meshes sc)"
  by (simp_all add: simulateFlight_def Let_def placeMesh_frame)

lemma land_scene:
  "next_mesh (snd (land owner dt a sc)) = next_mesh sc"
  "state a = LAND \<Longrightarrow> dom (meshes (snd (land owner dt a sc))) =
     (if state (fst (land owner dt a sc)) = REFUEL
      then dom (meshes sc) - set_option (mesh a) else dom (meshes sc))"
  "state a = LAND \<Longrightarrow> state (fst (land owner dt a sc)) = LAND \<or> state (fst (land owner dt a sc)) = REFUEL"
  "mesh (fst (land owner dt a sc)) = mesh a"
  by (auto simp add: land_def Let_def destroyMesh_frame split_beta)

lemma Aircraft_update_mesh: "mesh (fst (Aircraft_update owner dt a sc)) = mesh a"
  by (cases "state a")
    (simp_all add: Aircraft_update_def simulateFlight_keeps split_beta land_scene
      takeoff_def fly_def hover_def refuel_def Let_def)

lemma Aircraft_update_next_mesh:
  "next_mesh (snd (Aircraft_update owner dt a sc)) = next_mesh sc"
  by (cases "state a")
    (simp_all add: Aircraft_update_def simulateFlight_scene split_beta land_scene)

lemma Aircraft_update_inFlight:
  "inFlight (fst (Aircraft_update owner dt a sc)) \<Longrightarrow> inFlight a"
  by (cases "state a")
    (auto simp add: Aircraft_update_def simulateFlight_keeps split_beta inFlight_def
      refuel_def Let_def split: if_splits)

lemma Aircraft_update_dom:
  "dom (meshes (snd (Aircraft_update owner dt a sc))) =
     (if inFlight a \<and> \<not> inFlight (fst (Aircraft_update owner dt a sc))
      then dom (meshes sc) - set_option (mesh a) else dom (meshes sc))"
proof (cases "state a")
  case LAND
  then have "state (fst (land owner dt a sc)) = LAND \<or> state (fst (land owner dt a sc)) = REFUEL"
    by (rule land_scene(3))
  then show ?thesis
  proof
    assume "state (fst (land owner dt a sc)) = LAND"
    with LAND show ?thesis
      by (simp add: Aircraft_update_def simulateFlight_scene simulateFlight_keeps split_beta
          land_scene inFlight_def)
  next
    assume "state (fst (land owner dt a sc)) = REFUEL"
    with LAND show ?thesis
      by (simp add: Aircraft_update_def simulateFlight_scene simulateFlight_keeps split_beta
          land_scene inFlight_def)
  qed
qed (auto simp add: Aircraft_update_def simulateFlight_scene simulateFlight_keeps split_beta
      inFlight_def takeoff_def fly_def hover_def refuel_def Let_def)

subsection \<open>Mesh handles of the aircraft\<close>

lemma plane_handles_append [simp]:
  "plane_handles (xs @ ys) = plane_handles xs @ plane_handles ys"
  by (induction xs) (simp_all split: option.splits)

lemma plane_handles_member:
  "a \<in> set ps \<Longrightarrow> mesh a = Some h \<Longrightarrow> h \<in> set (plane_handles ps)"
  by (induction ps) (auto split: option.splits)

lemma plane_handles_same_mesh:
  "mesh a1 = mesh a \<Longrightarrow> plane_handles (a1 # ys) = plane_handles (a # ys)"
  by simp

lemma visual_ok_other:
  assumes "visual_ok sc b" "next_mesh sc1 = next_mesh sc"
    and "\<And>h. mesh b = Some h \<Longrightarrow> (h \<in> dom (meshes sc1)) = (h \<in> dom (meshes sc))"
  shows "visual_ok sc1 b"
  using assms by (auto simp add: visual_ok_def split: option.splits)

lemma visuals_ok_update_one:
  assumes v: "visuals_ok sc (xs @ a # ys)"
  shows "visuals_ok (snd (Aircraft_update owner dt a sc))
           (xs @ fst (Aircraft_update owner dt a sc) # ys)"
proof -
  let ?a1 = "fst (Aircraft_update owner dt a sc)"
  let ?sc1 = "snd (Aircraft_update owner dt a sc)"
  have m: "mesh ?a1 = mesh a" by (rule Aircraft_update_mesh)
  have n: "next_mesh ?sc1 = next_mesh sc" by (rule Aircraft_update_next_mesh)
  have d: "dom (meshes ?sc1) =
     (if inFlight a \<and> \<not> inFlight ?a1 then dom (meshes sc) - set_option (mesh a)
      else dom (meshes sc))" by (rule Aircraft_update_dom)
  have f: "inFlight ?a1 \<Longrightarrow> inFlight a" by (rule Aircraft_update_inFlight)
  have dist: "distinct (plane_handles xs @ plane_handles (a # ys))"
    using v by (simp add: visuals_ok_def)
  have others: "visual_ok ?sc1 b" if b: "b \<in> set xs \<union> set ys" for b
  proof (rule visual_ok_other [of sc])
    show "visual_ok sc b" using v b by (auto simp add: visuals_ok_def)
    show "next_mesh ?sc1 = next_mesh sc" by (rule n)
    fix h assume hb: "mesh b = Some h"
    have "mesh a \<noteq> Some h"
    proof
      assume ha: "mesh a = Some h"
      from b hb have "h \<in> set (plane_handles xs) \<or> h \<in> set (plane_handles ys)"
        using plane_handles_member by auto
      with dist ha show False by auto
    qed
    then show "(h \<in> dom (meshes ?sc1)) = (h \<in> dom (meshes sc))"
      by (auto simp add: d)
  qed
  have self: "visual_ok ?sc1 ?a1"
  proof -
    have va: "visual_ok sc a" using v by (simp add: visuals_ok_def)
    show ?thesis
    proof (cases "mesh a")
      case None
      with va f m show ?thesis by (auto simp add: visual_ok_def)
    next
      case (Some h)
      with va f m n d show ?thesis by (auto simp add: visual_ok_def)
    qed
  qed
  have bound: "\<forall>h \<in> dom (meshes ?sc1). h < next_mesh ?sc1"
    using v by (simp add: visuals_ok_def n d)
  have "distinct (plane_handles (xs @ ?a1 # ys))"
    using dist m by simp
  with others self bound show ?thesis
    by (auto simp add: visuals_ok_def)
qed

lemma visuals_ok_update_planes:
  "visuals_ok sc (xs @ ps) \<Longrightarrow>
     visuals_ok (snd (update_planes owner dt ps sc)) (xs @ fst (update_planes owner dt ps sc))"
proof (induction ps arbitrary: xs sc)
  case Nil
  then show ?case by simp
next
  case (Cons a ps)
  let ?a1 = "fst (Aircraft_update owner dt a sc)"
  let ?sc1 = "snd (Aircraft_update owner dt a sc)"
  have "visuals_ok ?sc1 ((xs @ [?a1]) @ ps)"
    using visuals_ok_update_one [OF Cons.prems] by simp
  from Cons.IH [OF this] show ?case
    by (simp add: split_beta)
qed

lemma visuals_ok_scene:
  "visuals_ok sc ps \<Longrightarrow> next_mesh sc1 = next_mesh sc \<Longrightarrow>
     dom (meshes sc1) = dom (meshes sc) \<Longrightarrow> visuals_ok sc1 ps"
  by (auto simp add: visuals_ok_def visual_ok_def split: option.splits)


lemma plane_handles_owner:
  "h \<in> set (plane_handles ps) \<Longrightarrow> \<exists>b \<in> set ps. mesh b = Some h"
  by (induction ps) (auto split: option.splits)

lemma launch_result:
  "mesh (fst (launch owner a sc)) = Some (next_mesh sc)"
  "state (fst (launch owner a sc)) = TAKEOFF"
  "position (fst (launch owner a sc)) = ship_position owner"
  "angle (fst (launch owner a sc)) = ship_angle owner"
  "flightTime (fst (launch owner a sc)) = flightTime a"
  "takeoffTime (fst (launch owner a sc)) = takeoffTime a"
  "next_mesh (snd (launch owner a sc)) = Suc (next_mesh sc)"
  "dom (meshes (snd (launch owner a sc))) = insert (next_mesh sc) (dom (meshes sc))"
  by (simp_all add: launch_def Let_def createAircraftMesh_def placeMesh_frame split_beta)

lemma visuals_ok_launch_one:
  assumes v: "visuals_ok sc (xs @ a # ys)" and r: "\<not> inFlight a"
  shows "visuals_ok (snd (launch owner a sc)) (xs @ fst (launch owner a sc) # ys)"
proof -
  let ?a1 = "fst (launch owner a sc)"
  let ?sc1 = "snd (launch owner a sc)"
  have old: "h < next_mesh sc" if "h \<in> set (plane_handles xs) \<union> set (plane_handles ys)" for h
  proof -
    from that obtain b where b: "b \<in> set xs \<union> set ys" "mesh b = Some h"
      using plane_handles_owner by blast
    with v have "visual_ok sc b" by (auto simp add: visuals_ok_def)
    with b show ?thesis by (simp add: visual_ok_def)
  qed
  have others: "visual_ok ?sc1 b" if b: "b \<in> set xs \<union> set ys" for b
  proof -
    have vb: "visual_ok sc b" using v b by (auto simp add: visuals_ok_def)
    then show ?thesis
      by (auto simp add: visual_ok_def launch_result split: option.splits)
  qed
  have self: "visual_ok ?sc1 ?a1"
    by (simp add: visual_ok_def launch_result inFlight_def)
  have bound: "\<forall>h \<in> dom (meshes ?sc1). h < next_mesh ?sc1"
    using v by (auto simp add: visuals_ok_def launch_result less_Suc_eq)
  have dist: "distinct (plane_handles xs @ plane_handles ys)"
    using v by (auto simp add: visuals_ok_def split: option.splits)
  have "distinct (plane_handles (xs @ ?a1 # ys))"
    using dist old by (auto simp add: launch_result)
  with others self bound show ?thesis
    by (auto simp add: visuals_ok_def)
qed


lemma visuals_ok_launch_first:
  "visuals_ok sc (xs @ ps) \<Longrightarrow>
     visuals_ok (snd (launch_first owner ps sc)) (xs @ fst (launch_first owner ps sc))"
proof (induction ps arbitrary: xs)
  case Nil
  then show ?case by simp
next
  case (Cons a ps)
  show ?case
  proof (cases "readyToFly a")
    case True
    then have "\<not> inFlight a" by (simp add: readyToFly_def inFlight_def)
    from visuals_ok_launch_one [OF Cons.prems this] True show ?thesis
      by (simp add: split_beta)
  next
    case False
    have "visuals_ok sc ((xs @ [a]) @ ps)" using Cons.prems by simp
    from Cons.IH [OF this] False show ?thesis
      by (simp add: split_beta)
  qed
qed

lemma deinit_planes_effect:
  "next_mesh (snd (deinit_planes ps sc)) = next_mesh sc
   \<and> dom (meshes (snd (deinit_planes ps sc))) \<subseteq> dom (meshes sc)
   \<and> map state (fst (deinit_planes ps sc)) = map state ps
   \<and> map mesh (fst (deinit_planes ps sc)) =
       map (\<lambda>a. if inFlight a then None else mesh a) ps"
proof (induction ps arbitrary: sc)
  case Nil
  then show ?case by simp
next
  case (Cons a ps)
  show ?case
  proof (cases "inFlight a")
    case True
    with Cons [of "destroyMesh (mesh a) sc"] show ?thesis
      by (auto simp add: split_beta Aircraft_deinit_def destroyMesh_frame)
  next
    case False
    with Cons [of sc] show ?thesis
      by (simp add: split_beta)
  qed
qed

lemma plane_handles_map_mesh:
  "map mesh ps1 = map mesh ps \<Longrightarrow> plane_handles ps1 = plane_handles ps"
proof (induction ps arbitrary: ps1)
  case Nil
  then show ?case by simp
next
  case (Cons a ps)
  from Cons.prems obtain b rest
    where p: "ps1 = b # rest" "mesh b = mesh a" "map mesh rest = map mesh ps"
    by (cases ps1) auto
  from Cons.IH [OF p(3)] p(1,2) show ?case by (simp split: option.splits)
qed

lemma plane_handles_grounded:
  "map mesh ps1 = map (\<lambda>a. if inFlight a then None else mesh a) ps \<Longrightarrow>
     distinct (plane_handles ps) \<Longrightarrow>
     distinct (plane_handles ps1) \<and> set (plane_handles ps1) \<subseteq> set (plane_handles ps)"
proof (induction ps arbitrary: ps1)
  case Nil
  then show ?case by simp
next
  case (Cons a ps)
  from Cons.prems(1) obtain b rest
    where p: "ps1 = b # rest" "mesh b = (if inFlight a then None else mesh a)"
      "map mesh rest = map (\<lambda>a. if inFlight a then None else mesh a) ps"
    by (cases ps1) auto
  have d: "distinct (plane_handles ps)"
    using Cons.prems(2) by (simp split: option.splits)
  have ih: "distinct (plane_handles rest) \<and> set (plane_handles rest) \<subseteq> set (plane_handles ps)"
    by (rule Cons.IH [OF p(3) d])
  show ?case
  proof (cases "mesh b")
    case None
    with ih p(1) show ?thesis by (auto split: option.splits)
  next
    case (Some h)
    with p(2) have "mesh a = Some h" by (simp split: if_splits)
    with Some ih p(1) Cons.prems(2) show ?thesis by auto
  qed
qed


lemma Aircraft_init_keeps_mesh: "mesh (Aircraft_init a) = mesh a"
  by (simp add: Aircraft_init_def)

lemma game_init_scene:
  "game_init g = Inr g1 \<Longrightarrow>
     next_mesh (scene g1) = Suc (next_mesh (scene g))
     \<and> dom (meshes (scene g1)) = insert (next_mesh (scene g)) (dom (meshes (scene g)))"
  by (auto simp add: game_init_def Ship_init_def createShipMesh_def split: if_splits)

lemma visuals_ok_after_init:
  assumes i: "game_init g0 = Inr g1"
    and stale: "\<And>a h. a \<in> set (planes g0) \<Longrightarrow> mesh a = Some h \<Longrightarrow>
                  h < next_mesh (scene g0) \<and> h \<notin> dom (meshes (scene g0))"
    and dist: "distinct (plane_handles (planes g0))"
    and bound: "\<forall>h \<in> dom (meshes (scene g0)). h < next_mesh (scene g0)"
  shows "visuals_ok (scene g1) (planes g1)"
proof -
  have p: "planes g1 = map Aircraft_init (planes g0)"
    using i by (rule game_init_planes)
  have sc: "next_mesh (scene g1) = Suc (next_mesh (scene g0))"
    "dom (meshes (scene g1)) = insert (next_mesh (scene g0)) (dom (meshes (scene g0)))"
    using game_init_scene [OF i] by simp_all
  have "visual_ok (scene g1) (Aircraft_init a)" if "a \<in> set (planes g0)" for a
  proof (cases "mesh a")
    case None
    then show ?thesis
      by (simp add: visual_ok_def Aircraft_init_keeps_mesh inFlight_def Aircraft_init_def)
  next
    case (Some h)
    with stale [OF that] have "h < next_mesh (scene g0)" "h \<notin> dom (meshes (scene g0))"
      by simp_all
    with Some show ?thesis
      by (auto simp add: visual_ok_def Aircraft_init_keeps_mesh sc inFlight_def Aircraft_init_def)
  qed
  moreover have "plane_handles (planes g1) = plane_handles (planes g0)"
    by (rule plane_handles_map_mesh) (simp add: p Aircraft_init_keeps_mesh)
  moreover have "\<forall>h \<in> dom (meshes (scene g1)). h < next_mesh (scene g1)"
    using bound by (auto simp add: sc less_Suc_eq)
  ultimately show ?thesis
    using dist by (auto simp add: visuals_ok_def p)
qed

lemma game_deinit_parts:
  "planes (game_deinit g) = fst (deinit_planes (planes g) (snd (Ship_deinit (ship g) (scene g))))"
  "scene (game_deinit g) = snd (deinit_planes (planes g) (snd (Ship_deinit (ship g) (scene g))))"
  by (simp_all add: game_deinit_def split_beta)

lemma visuals_ok_restart:
  assumes v: "visuals_ok (scene g) (planes g)" and i: "game_init (game_deinit g) = Inr g1"
  shows "visuals_ok (scene g1) (planes g1)"
proof (rule visuals_ok_after_init [OF i])
  let ?sc1 = "snd (Ship_deinit (ship g) (scene g))"
  have e: "next_mesh (scene (game_deinit g)) = next_mesh ?sc1"
    "dom (meshes (scene (game_deinit g))) \<subseteq> dom (meshes ?sc1)"
    "map mesh (planes (game_deinit g)) =
       map (\<lambda>a. if inFlight a then None else mesh a) (planes g)"
    using deinit_planes_effect [of "planes g" ?sc1] by (simp_all add: game_deinit_parts)
  have s: "next_mesh ?sc1 = next_mesh (scene g)" "dom (meshes ?sc1) \<subseteq> dom (meshes (scene g))"
    by (auto simp add: Ship_deinit_def destroyMesh_frame)
  have sub: "dom (meshes (scene (game_deinit g))) \<subseteq> dom (meshes (scene g))"
    using e(2) s(2) by (rule order_trans)
  have nxt: "next_mesh (scene (game_deinit g)) = next_mesh (scene g)"
    using e(1) s(1) by simp
  show "distinct (plane_handles (planes (game_deinit g)))"
    using plane_handles_grounded [OF e(3)] v by (simp add: visuals_ok_def)
  show "\<forall>h \<in> dom (meshes (scene (game_deinit g))). h < next_mesh (scene (game_deinit g))"
    using v sub by (auto simp add: visuals_ok_def nxt)
  fix a h assume a: "a \<in> set (planes (game_deinit g))" "mesh a = Some h"
  then have "Some h \<in> set (map mesh (planes (game_deinit g)))" by force
  then have "Some h \<in> set (map (\<lambda>a. if inFlight a then None else mesh a) (planes g))"
    by (simp only: e(3))
  then obtain b where b: "b \<in> set (planes g)" "\<not> inFlight b" "mesh b = Some h"
    by (auto split: if_splits)
  from v b(1) have "visual_ok (scene g) b"
    by (simp add: visuals_ok_def)
  with b(2,3) have "h < next_mesh (scene g)" "h \<notin> dom (meshes (scene g))"
    by (simp_all add: visual_ok_def)
  with sub show "h < next_mesh (scene (game_deinit g)) \<and> h \<notin> dom (meshes (scene (game_deinit g)))"
    by (auto simp add: nxt)
qed

lemma visuals_ok_start:
  assumes i: "game_init game_start = Inr g"
  shows "visuals_ok (scene g) (planes g)"
proof (rule visuals_ok_after_init [OF i])
  show "distinct (plane_handles (planes game_start))"
    by (simp add: game_start_def Aircraft_new_def numeral_eq_Suc)
  show "\<forall>h \<in> dom (meshes (scene game_start)). h < next_mesh (scene game_start)"
    by (simp add: game_start_def)
  fix a h assume "a \<in> set (planes game_start)" "mesh a = Some h"
  then show "h < next_mesh (scene game_start) \<and> h \<notin> dom (meshes (scene game_start))"
    by (simp add: game_start_def Aircraft_new_def)
qed

lemma scene_game_update:
  "scene (game_update dt g) =
     snd (update_planes (fst (Ship_update dt (ship g) (scene g))) dt (planes g)
            (snd (Ship_update dt (ship g) (scene g))))"
  by (simp add: game_update_def split_beta)

lemma Ship_update_scene:
  "next_mesh (snd (Ship_update dt s sc)) = next_mesh sc"
  "dom (meshes (snd (Ship_update dt s sc))) = dom (meshes sc)"
  by (simp_all add: Ship_update_def Let_def placeMesh_frame)

lemma visuals_ok_setTarget:
  "visuals_ok sc ps \<Longrightarrow> visuals_ok (placeGoalMarker px py sc) (map (setTarget p) ps)"
proof -
  have "plane_handles (map (setTarget p) ps) = plane_handles ps"
    by (rule plane_handles_map_mesh) (simp add: setTarget_def)
  then show "visuals_ok sc ps \<Longrightarrow> visuals_ok (placeGoalMarker px py sc) (map (setTarget p) ps)"
    by (auto simp add: visuals_ok_def visual_ok_def placeGoalMarker_def setTarget_def
        inFlight_def split: option.splits)
qed

lemma visuals_ok_event:
  assumes e: "game_event stw e g = Inr g1" and v: "visuals_ok (scene g) (planes g)"
  shows "visuals_ok (scene g1) (planes g1)"
proof (cases e)
  case (Update dt)
  let ?s = "fst (Ship_update dt (ship g) (scene g))"
  let ?sc = "snd (Ship_update dt (ship g) (scene g))"
  have "visuals_ok ?sc ([] @ planes g)"
    using visuals_ok_scene [OF v, of ?sc] by (simp add: Ship_update_scene)
  from visuals_ok_update_planes [OF this, of ?s dt] e Update show ?thesis
    by (auto simp add: planes_game_update scene_game_update)
next
  case (KeyPressed k)
  with e v show ?thesis
    by (auto simp add: game_keyPressed_def split: sum.splits)
next
  case (KeyReleased k)
  with e v show ?thesis
    by (auto simp add: game_keyReleased_def split: sum.splits)
next
  case (MouseClicked px py l)
  show ?thesis
  proof (cases l)
    case True
    with e v MouseClicked show ?thesis
      by (auto simp add: game_mouseClicked_def Ship_mouseClicked_def Let_def visuals_ok_setTarget
          split: if_splits)
  next
    case False
    have "visuals_ok (scene g) ([] @ planes g)" using v by simp
    from visuals_ok_launch_first [OF this, of "ship g"] e MouseClicked False show ?thesis
      by (auto simp add: game_mouseClicked_def Ship_mouseClicked_def Let_def split_beta
          split: if_splits)
  qed
qed

lemma reachable_visuals_ok: "reachable g \<Longrightarrow> visuals_ok (scene g) (planes g)"
proof (induction rule: reachable.induct)
  case (start g)
  then show ?case by (rule visuals_ok_start)
next
  case (event g e stw g1)
  then show ?case using visuals_ok_event by blast
next
  case (restart g g1)
  then show ?case using visuals_ok_restart by blast
qed

section \<open>Concrete runs of the game\<close>

lemma game_init_start: "game_init game_start = Inr game_ready"
  by (simp add: game_init_def game_start_def Ship_init_def Ship_new_def createShipMesh_def
      game_ready_def ship_ready_def plane_ready_def Aircraft_init_def Aircraft_new_def)

lemma sqrt_one_plus_ratio:
  assumes "a \<noteq> 0"
  shows "sqrt (1 + (b / a)\<^sup>2) = sqrt (a * a + b * b) / \<bar>a\<bar>"
proof -
  have "1 + (b / a)\<^sup>2 = (a * a + b * b) / (a * a)"
    using assms by (simp add: field_simps power2_eq_square)
  then show ?thesis
    by (simp add: real_sqrt_divide)
qed

lemma cos_arctan_ratio:
  assumes "a \<noteq> 0"
  shows "cos (arctan (b / a)) = \<bar>a\<bar> / sqrt (a * a + b * b)"
  using assms by (simp add: cos_arctan sqrt_one_plus_ratio)

lemma sin_arctan_ratio:
  assumes "a \<noteq> 0"
  shows "sin (arctan (b / a)) = (b / a) * \<bar>a\<bar> / sqrt (a * a + b * b)"
  using assms by (simp add: sin_arctan sqrt_one_plus_ratio)

lemma cos_atan2: "a \<noteq> 0 \<or> b \<noteq> 0 \<Longrightarrow> cos (atan2 b a) = a / sqrt (a * a + b * b)"
proof -
  assume nz: "a \<noteq> 0 \<or> b \<noteq> 0"
  consider "0 < a" | "a < 0" | "a = 0" by linarith
  then show ?thesis
  proof cases
    case 1
    then show ?thesis by (simp add: atan2_def cos_arctan_ratio)
  next
    case 2
    then show ?thesis by (simp add: atan2_def cos_arctan_ratio cos_diff cos_add)
  next
    case 3
    with nz show ?thesis by (simp add: atan2_def)
  qed
qed

lemma sin_atan2: "a \<noteq> 0 \<or> b \<noteq> 0 \<Longrightarrow> sin (atan2 b a) = b / sqrt (a * a + b * b)"
proof -
  assume nz: "a \<noteq> 0 \<or> b \<noteq> 0"
  consider "0 < a" | "a < 0" | "a = 0" by linarith
  then show ?thesis
  proof cases
    case 1
    then show ?thesis by (simp add: atan2_def sin_arctan_ratio)
  next
    case 2
    then show ?thesis by (simp add: atan2_def sin_arctan_ratio sin_diff sin_add)
  next
    case 3
    with nz have "b \<noteq> 0" by simp
    then have "b / \<bar>b\<bar> = (if 0 < b then 1 else - 1)" by (simp add: abs_if)
    with 3 nz show ?thesis by (auto simp add: atan2_def)
  qed
qed

lemma Aircraft_update_scene_free:
  "fst (Aircraft_update owner dt a sc) = fst (Aircraft_update owner dt a sc0)"
  by (cases "state a") (simp_all add: Aircraft_update_def simulateFlight_def land_def split_beta Let_def)

lemma Ship_update_at_rest:
  "input s = (\<lambda>key. False) \<Longrightarrow> ship_linearSpeed s = 0 \<Longrightarrow> fst (Ship_update dt s sc) = s"
  by (simp add: Ship_update_def Let_def vec_add_def vec_scale_def)


lemma cos_sin_not_both_zero: "cos (t::real) \<noteq> 0 \<or> sin t \<noteq> 0"
  using sin_zero_abs_cos_one [of t] by auto

lemma cos_atan2_back: "cos (atan2 (- sin t) (- cos t)) = - cos t"
  using cos_atan2 [of "- cos t" "- sin t"] cos_sin_not_both_zero [of t] by simp

lemma sin_atan2_back: "sin (atan2 (- sin t) (- cos t)) = - sin t"
  using sin_atan2 [of "- cos t" "- sin t"] cos_sin_not_both_zero [of t] by simp

lemmas run_defs =
  Aircraft_update_def takeoff_def fly_def hover_def land_def refuel_def simulateFlight_def
  inFlight_def Let_def split_beta vec_add_def vec_sub_def vec_scale_def length_Vector2_def
  aircraft_LINEAR_SPEED_def aircraft_ANGULAR_SPEED_def FLIGHT_TIME_def REFUEL_TIME_def
  ship_ready_def

lemma launch_ready:
  "fst (launch ship_ready (setTarget tgt plane_ready) (scene game_ready)) =
     airborne tgt TAKEOFF (Vector2 0 0) 0 0 0 0 0"
  by (simp add: launch_def createAircraftMesh_def Let_def split_beta ship_ready_def plane_ready_def
      game_ready_def airborne_def setTarget_def)

lemma step_takeoff_1:
  "fst (Aircraft_update ship_ready 2 (airborne tgt TAKEOFF (Vector2 0 0) 0 0 0 0 0) sc) =
     airborne tgt TAKEOFF (Vector2 0 0) 0 2 2 0 0"
  by (simp add: run_defs airborne_def)

lemma step_takeoff_2:
  "fst (Aircraft_update ship_ready dt (airborne tgt TAKEOFF (Vector2 0 0) 0 2 2 0 0) sc) =
     airborne tgt FLY (Vector2 (2 * dt) 0) 0 (if 2 + dt \<le> 2 then 2 + dt else 2) (2 + dt) 0 0"
  by (simp add: run_defs airborne_def)

lemma step_fly_to_hover:
  "fst (Aircraft_update ship_ready 2 (airborne (Vector2 0 0) FLY (Vector2 1 0) 0 2 (5/2) 0 0) sc) =
     airborne (Vector2 0 0) HOVER (Vector2 1 0) 0 2 (9/2) 0 PI"
  by (simp add: run_defs airborne_def)

lemma step_hover_first:
  "fst (Aircraft_update ship_ready 2 (airborne (Vector2 0 0) HOVER (Vector2 1 0) 0 2 (9/2) 0 PI) sc) =
     airborne (Vector2 0 0) HOVER (Vector2 (cos (PI + 5)) (sin (PI + 5))) (PI + PI / 2) 2 (13/2) 0
       (PI + 5)"
  by (simp add: run_defs airborne_def)

lemma step_hover:
  "fst (Aircraft_update ship_ready 2
          (airborne (Vector2 0 0) HOVER (Vector2 (cos h) (sin h)) ang 2 ft 0 h) sc) =
     airborne (Vector2 0 0) (if ft \<ge> 10 then LAND else HOVER)
       (Vector2 (cos (h + 5)) (sin (h + 5))) (h + PI / 2) 2 (ft + 2) 0 (h + 5)"
  by (simp add: run_defs airborne_def)

lemma step_land_approach:
  "fst (Aircraft_update ship_ready (1/2)
          (airborne (Vector2 0 0) LAND (Vector2 (cos h) (sin h)) ang 2 ft 0 h1) sc) =
     airborne (Vector2 0 0) LAND (Vector2 0 0) (atan2 (- sin h) (- cos h)) 2 (ft + 1/2) 0 h1"
  by (simp add: run_defs airborne_def cos_atan2_back sin_atan2_back)

lemma step_land_touchdown:
  "fst (Aircraft_update ship_ready 2
          (airborne (Vector2 0 0) LAND (Vector2 0 0) ang 2 ft 0 h1) sc) =
     airborne (Vector2 0 0) REFUEL (Vector2 4 0) 0 2 ft ft h1"
  by (simp add: run_defs airborne_def atan2_def)

lemma step_refuel:
  "fst (Aircraft_update ship_ready 2
          (airborne (Vector2 0 0) REFUEL pos ang 2 ft lt h1) sc) =
     (if lt + 2 > ft + 3 then airborne (Vector2 0 0) IDLE pos ang 0 0 0 h1
      else airborne (Vector2 0 0) REFUEL pos ang 2 ft (lt + 2) h1)"
  by (simp add: run_defs airborne_def)

lemmas steps =
  step_takeoff_1 step_takeoff_2 step_fly_to_hover step_hover_first step_hover
  step_land_approach step_land_touchdown step_refuel

lemma solo_landing:
  "solo ship_ready [2, 1/2, 2, 2, 2, 2, 2, 1/2, 2]
     (airborne (Vector2 0 0) TAKEOFF (Vector2 0 0) 0 0 0 0 0) =
     airborne (Vector2 0 0) REFUEL (Vector2 4 0) 0 2 13 13 (PI + 20)"
  by (simp add: steps add.commute)

lemma solo_landed:
  "solo ship_ready [2, 1/2, 2, 2, 2, 2, 2, 1/2, 2, 2, 2]
     (airborne (Vector2 0 0) TAKEOFF (Vector2 0 0) 0 0 0 0 0) =
     airborne (Vector2 0 0) IDLE (Vector2 4 0) 0 0 0 0 (PI + 20)"
  by (simp add: steps add.commute)



lemma reachable_run:
  "reachable g \<Longrightarrow> list_all elapsed_ok es \<Longrightarrow> game_run stw es g = Inr g1 \<Longrightarrow> reachable g1"
proof (induction es arbitrary: g)
  case Nil
  then show ?case by simp
next
  case (Cons e es)
  from Cons.prems(3) obtain g2 where s: "game_event stw e g = Inr g2" "game_run stw es g2 = Inr g1"
    by (auto split: sum.splits)
  have "reachable g2"
    using Cons.prems(1,2) s(1) by (auto intro: reachable.event)
  with Cons.IH [of g2] Cons.prems(2) s(2) show ?case by simp
qed

lemma reachable_ready: "reachable game_ready"
  using game_init_start by (rule reachable.start)

lemma hd_planes_game_update:
  assumes "planes g \<noteq> []"
  shows "planes (game_update dt g) \<noteq> []"
    and "hd (planes (game_update dt g)) =
      fst (Aircraft_update (fst (Ship_update dt (ship g) (scene g))) dt (hd (planes g)) sc)"
proof -
  from assms obtain a rest where p: "planes g = a # rest" by (cases "planes g") auto
  show "planes (game_update dt g) \<noteq> []"
    by (simp add: planes_game_update p split_beta)
  show "hd (planes (game_update dt g)) =
      fst (Aircraft_update (fst (Ship_update dt (ship g) (scene g))) dt (hd (planes g)) sc)"
    using Aircraft_update_scene_free by (simp add: planes_game_update p split_beta)
qed

lemma ship_game_update: "ship (game_update dt g) = fst (Ship_update dt (ship g) (scene g))"
  by (simp add: game_update_def split_beta)

lemma run_frames_at_rest:
  "ship g = ship_ready \<Longrightarrow> planes g \<noteq> [] \<Longrightarrow>
     \<exists>g1. game_run stw (map Update dts) g = Inr g1 \<and> ship g1 = ship_ready \<and> planes g1 \<noteq> []
       \<and> hd (planes g1) = solo ship_ready dts (hd (planes g))"
proof (induction dts arbitrary: g)
  case Nil
  then show ?case by simp
next
  case (Cons dt dts)
  have s: "ship (game_update dt g) = ship_ready"
    using Cons.prems(1) by (simp add: ship_game_update Ship_update_at_rest ship_ready_def)
  have n: "planes (game_update dt g) \<noteq> []"
    using Cons.prems(2) by (rule hd_planes_game_update)
  have h: "hd (planes (game_update dt g)) =
      fst (Aircraft_update ship_ready dt (hd (planes g)) (scene game_start))"
    using hd_planes_game_update(2) [OF Cons.prems(2), of dt "scene game_start"] s
    by (simp add: ship_game_update)
  from Cons.IH [OF s n] h show ?case by simp
qed

lemma right_click_ready:
  "\<exists>g. game_mouseClicked stw px py False game_ready = Inr g \<and> ship g = ship_ready
     \<and> planes g \<noteq> []
     \<and> hd (planes g) = airborne (Vector2 0 0) TAKEOFF (Vector2 0 0) 0 0 0 0 0"
  using launch_ready [of "Vector2 0 0"]
  by (simp add: game_mouseClicked_def Ship_mouseClicked_def game_ready_def readyToFly_def
      ship_ready_def plane_ready_def split_beta numeral_eq_Suc setTarget_def)

lemma landing_run:
  "\<exists>g. game_run (\<lambda>p. p) landing_events game_ready = Inr g \<and> reachable g
     \<and> planes g \<noteq> []
     \<and> hd (planes g) = airborne (Vector2 0 0) REFUEL (Vector2 4 0) 0 2 13 13 (PI + 20)"
proof -
  obtain g0 where g0: "game_mouseClicked (\<lambda>p. p) 0 0 False game_ready = Inr g0"
    "ship g0 = ship_ready" "planes g0 \<noteq> []"
    "hd (planes g0) = airborne (Vector2 0 0) TAKEOFF (Vector2 0 0) 0 0 0 0 0"
    using right_click_ready by blast
  obtain g1 where g1: "game_run (\<lambda>p. p) (map Update [2, 1/2, 2, 2, 2, 2, 2, 1/2, 2]) g0 = Inr g1"
    "planes g1 \<noteq> []"
    "hd (planes g1) = solo ship_ready [2, 1/2, 2, 2, 2, 2, 2, 1/2, 2] (hd (planes g0))"
    using run_frames_at_rest [OF g0(2,3)] by blast
  have r: "game_run (\<lambda>p. p) landing_events game_ready = Inr g1"
    using g0(1) g1(1) by (simp add: landing_events_def)
  have "reachable g1"
    using reachable_ready _ r by (rule reachable_run) (simp add: landing_events_def)
  with r g1 g0(4) solo_landing show ?thesis by simp
qed








lemma landed_run:
  "\<exists>g. game_run (\<lambda>p. p) (landing_events @ [Update 2, Update 2]) game_ready = Inr g
     \<and> reachable g \<and> planes g \<noteq> []
     \<and> hd (planes g) = airborne (Vector2 0 0) IDLE (Vector2 4 0) 0 0 0 0 (PI + 20)"
proof -
  obtain g0 where g0: "game_mouseClicked (\<lambda>p. p) 0 0 False game_ready = Inr g0"
    "ship g0 = ship_ready" "planes g0 \<noteq> []"
    "hd (planes g0) = airborne (Vector2 0 0) TAKEOFF (Vector2 0 0) 0 0 0 0 0"
    using right_click_ready by blast
  obtain g1 where g1:
    "game_run (\<lambda>p. p) (map Update [2, 1/2, 2, 2, 2, 2, 2, 1/2, 2, 2, 2]) g0 = Inr g1"
    "planes g1 \<noteq> []"
    "hd (planes g1) = solo ship_ready [2, 1/2, 2, 2, 2, 2, 2, 1/2, 2, 2, 2] (hd (planes g0))"
    using run_frames_at_rest [OF g0(2,3)] by blast
  have r: "game_run (\<lambda>p. p) (landing_events @ [Update 2, Update 2]) game_ready = Inr g1"
    using g0(1) g1(1) by (simp add: landing_events_def)
  have "reachable g1"
    using reachable_ready _ r by (rule reachable_run) (simp add: landing_events_def)
  with r g1 g0(4) solo_landed show ?thesis by simp
qed

section \<open>The flight of one aircraft\<close>








































section \<open>Invariants of the reachable aircraft\<close>

text \<open>
  C2, as the code has it. For every aircraft of a reachable game (the frames have
  \<open>dt \<ge> 0\<close>), the speed lies in \<open>[0, 2]\<close> in every state, so whenever the aircraft is
  airborne and also while it refuels, and the speed is exactly \<open>0\<close> in state IDLE, so
  immediately after the transition into IDLE as well. The code sets the speed to \<open>0\<close>
  when the refuelling ends, not when it begins.
\<close>

theorem aircraft_speed_range:
  "reachable g \<Longrightarrow> a \<in> set (planes g) \<Longrightarrow>
     0 \<le> linearSpeed a \<and> linearSpeed a \<le> 2 \<and> (state a = IDLE \<longrightarrow> linearSpeed a = 0)"
  using reachable_planes_ok [of g] by (simp add: plane_ok_def)

theorem aircraft_speed_range_witness:
  "reachable game_ready \<and> plane_ready \<in> set (planes game_ready) \<and> state plane_ready = IDLE
   \<and> linearSpeed plane_ready = 0"
proof -
  have p: "plane_ready \<in> set (planes game_ready)" "state plane_ready = IDLE"
    by (simp_all add: game_ready_def plane_ready_def)
  from aircraft_speed_range [OF reachable_ready p(1)] reachable_ready p show ?thesis
    by simp
qed

text \<open>
  C2 fails for state REFUEL. On the run \<open>landing_events\<close> from the initialised game the
  first aircraft lands in the ninth frame, and in state REFUEL its speed is still \<open>2\<close>.
\<close>

theorem refuelling_speed_not_zero:
  "\<exists>g. game_run (\<lambda>p. p) landing_events game_ready = Inr g \<and> reachable g
     \<and> hd (planes g) \<in> set (planes g)
     \<and> state (hd (planes g)) = REFUEL \<and> linearSpeed (hd (planes g)) = 2"
proof -
  obtain g where g: "game_run (\<lambda>p. p) landing_events game_ready = Inr g" "reachable g"
    "planes g \<noteq> []"
    "hd (planes g) = airborne (Vector2 0 0) REFUEL (Vector2 4 0) 0 2 13 13 (PI + 20)"
    using landing_run by blast
  have "state (hd (planes g)) = REFUEL \<and> linearSpeed (hd (planes g)) = 2"
    by (simp add: g(4) airborne_def)
  with g(1,2,3) show ?thesis by auto
qed

text \<open>
  C3, evaluated. After the run \<open>landing_events\<close> and two more frames the first aircraft
  has landed and refuelled: it is in state IDLE, and its mesh pointer is still the handle
  \<open>1\<close> it got at its launch. \<^verbatim>\<open>Aircraft::land\<close> destroys the mesh and does not set the
  pointer to null, as \<^verbatim>\<open>Aircraft::deinit\<close> and \<^verbatim>\<open>Ship::deinit\<close> do after destroying
  theirs.
\<close>

theorem idle_handle_not_null:
  "\<exists>g. game_run (\<lambda>p. p) (landing_events @ [Update 2, Update 2]) game_ready = Inr g
     \<and> reachable g \<and> hd (planes g) \<in> set (planes g)
     \<and> state (hd (planes g)) = IDLE \<and> mesh (hd (planes g)) = Some 1"
proof -
  obtain g where g:
    "game_run (\<lambda>p. p) (landing_events @ [Update 2, Update 2]) game_ready = Inr g"
    "reachable g" "planes g \<noteq> []"
    "hd (planes g) = airborne (Vector2 0 0) IDLE (Vector2 4 0) 0 0 0 0 (PI + 20)"
    using landed_run by blast
  have "state (hd (planes g)) = IDLE \<and> mesh (hd (planes g)) = Some 1"
    by (simp add: g(4) airborne_def)
  with g(1,2,3) show ?thesis by auto
qed

section \<open>Launching\<close>

text \<open>
  C5. For every aircraft in state IDLE of a reachable game, \<^verbatim>\<open>launch()\<close> creates its
  visual: the mesh pointer becomes a handle that no mesh of the scene had before, and the
  scene holds an aircraft mesh under it, placed at the ship's position and angle. The
  position and the angle of the aircraft become those of the ship, the flight timer is
  \<open>0\<close>, the takeoff threshold is \<open>2\<close>, and the state is TAKEOFF.
\<close>

theorem launch_from_idle:
  "reachable g \<Longrightarrow> a \<in> set (planes g) \<Longrightarrow> state a = IDLE \<Longrightarrow>
     (\<exists>h. mesh (fst (launch (ship g) a (scene g))) = Some h
          \<and> h \<notin> dom (meshes (scene g))
          \<and> meshes (snd (launch (ship g) a (scene g))) h =
              Some (AircraftMesh, vx (ship_position (ship g)), vy (ship_position (ship g)),
                    ship_angle (ship g)))
     \<and> position (fst (launch (ship g) a (scene g))) = ship_position (ship g)
     \<and> angle (fst (launch (ship g) a (scene g))) = ship_angle (ship g)
     \<and> flightTime (fst (launch (ship g) a (scene g))) = 0
     \<and> takeoffTime (fst (launch (ship g) a (scene g))) = 2
     \<and> state (fst (launch (ship g) a (scene g))) = TAKEOFF"
proof -
  assume r: "reachable g" and a: "a \<in> set (planes g)" and i: "state a = IDLE"
  have "plane_ok a" using reachable_planes_ok [OF r] a by simp
  with i have t: "flightTime a = 0" "takeoffTime a = 2" by (simp_all add: plane_ok_def)
  have "\<forall>h \<in> dom (meshes (scene g)). h < next_mesh (scene g)"
    using reachable_visuals_ok [OF r] by (simp add: visuals_ok_def)
  then have n: "next_mesh (scene g) \<notin> dom (meshes (scene g))" by auto
  have "meshes (snd (launch (ship g) a (scene g))) (next_mesh (scene g)) =
      Some (AircraftMesh, vx (ship_position (ship g)), vy (ship_position (ship g)),
            ship_angle (ship g))"
    by (simp add: launch_def createAircraftMesh_def placeMesh_def Let_def split_beta)
  with n t show ?thesis by (simp add: launch_result)
qed

theorem launch_from_idle_witness:
  "reachable game_ready \<and> plane_ready \<in> set (planes game_ready) \<and> state plane_ready = IDLE
   \<and> mesh (fst (launch ship_ready plane_ready (scene game_ready))) = Some 1
   \<and> state (fst (launch ship_ready plane_ready (scene game_ready))) = TAKEOFF
   \<and> flightTime (fst (launch ship_ready plane_ready (scene game_ready))) = 0
   \<and> takeoffTime (fst (launch ship_ready plane_ready (scene game_ready))) = 2"
proof -
  have p: "plane_ready \<in> set (planes game_ready)" "state plane_ready = IDLE"
    by (simp_all add: game_ready_def plane_ready_def)
  have m: "mesh (fst (launch ship_ready plane_ready (scene game_ready))) = Some 1"
    by (simp add: launch_result game_ready_def)
  from launch_from_idle [OF reachable_ready p] reachable_ready p m show ?thesis
    by (simp add: game_ready_def)
qed

lemma launch_first_none:
  "\<forall>b \<in> set ps. \<not> readyToFly b \<Longrightarrow> launch_first s ps sc = (ps, sc)"
  by (induction ps) simp_all

lemma launch_first_split:
  "\<forall>b \<in> set front. \<not> readyToFly b \<Longrightarrow> readyToFly a \<Longrightarrow>
     launch_first s (front @ a # rest) sc =
       (front @ fst (launch s a sc) # rest, snd (launch s a sc))"
  by (induction front) (simp_all add: split_beta)

lemma five_idle:
  assumes "map state ps = [IDLE, IDLE, IDLE, IDLE, IDLE]"
  obtains a b c d e where "ps = [a, b, c, d, e]"
    "state a = IDLE" "state b = IDLE" "state c = IDLE" "state d = IDLE" "state e = IDLE"
  using assms by (auto simp add: map_eq_Cons_conv)

text \<open>
  C8. A click with a button other than the left one launches the first aircraft of the
  array that is ready to fly, and no other: the aircraft before it (none of them ready)
  and the aircraft after it stay as they are, and when no aircraft is ready nothing
  changes. So at most one aircraft is launched per click. From five idle aircraft, a
  second such click right after the first leaves the first two aircraft in state TAKEOFF
  and the other three in state IDLE.
\<close>

theorem right_click_launches_first_ready:
  assumes "ship_planes s = bound"
  shows "\<exists>ps1 sc1. Ship_mouseClicked w False s ps sc = Inr (ps1, sc1)
     \<and> (if \<exists>a \<in> set ps. readyToFly a
        then \<exists>front a rest. ps = front @ a # rest \<and> (\<forall>b \<in> set front. \<not> readyToFly b)
               \<and> readyToFly a \<and> state (fst (launch s a sc)) = TAKEOFF
               \<and> ps1 = front @ fst (launch s a sc) # rest \<and> sc1 = snd (launch s a sc)
        else ps1 = ps \<and> sc1 = sc)
     \<and> (map state ps = [IDLE, IDLE, IDLE, IDLE, IDLE] \<longrightarrow>
          (\<exists>ps2 sc2. Ship_mouseClicked w2 False s ps1 sc1 = Inr (ps2, sc2)
             \<and> map state ps2 = [TAKEOFF, TAKEOFF, IDLE, IDLE, IDLE]))"
proof -
  have click: "Ship_mouseClicked v False s qs sc0 = Inr (launch_first s qs sc0)" for v qs sc0
    using assms by (simp add: Ship_mouseClicked_def)
  have first: "if \<exists>a \<in> set ps. readyToFly a
        then \<exists>front a rest. ps = front @ a # rest \<and> (\<forall>b \<in> set front. \<not> readyToFly b)
               \<and> readyToFly a \<and> state (fst (launch s a sc)) = TAKEOFF
               \<and> fst (launch_first s ps sc) = front @ fst (launch s a sc) # rest
               \<and> snd (launch_first s ps sc) = snd (launch s a sc)
        else fst (launch_first s ps sc) = ps \<and> snd (launch_first s ps sc) = sc"
  proof (cases "\<exists>a \<in> set ps. readyToFly a")
    case True
    then obtain front a rest
      where sp: "ps = front @ a # rest" "readyToFly a" "\<forall>b \<in> set front. \<not> readyToFly b"
      using split_list_first_prop [of ps readyToFly] by blast
    from launch_first_split [OF sp(3) sp(2), of s rest sc] sp True show ?thesis
      by (auto simp add: launch_result)
  next
    case False
    then show ?thesis by (simp add: launch_first_none)
  qed
  have twice: "map state (fst (launch_first s (fst (launch_first s ps sc)) (snd (launch_first s ps sc))))
                 = [TAKEOFF, TAKEOFF, IDLE, IDLE, IDLE]"
    if "map state ps = [IDLE, IDLE, IDLE, IDLE, IDLE]"
  proof -
    from that obtain a b c d e where "ps = [a, b, c, d, e]"
      "state a = IDLE" "state b = IDLE" "state c = IDLE" "state d = IDLE" "state e = IDLE"
      by (rule five_idle)
    then show ?thesis
      by (simp add: readyToFly_def split_beta launch_result)
  qed
  have second: "map state ps = [IDLE, IDLE, IDLE, IDLE, IDLE] \<longrightarrow>
      (\<exists>ps2 sc2. Ship_mouseClicked w2 False s (fst (launch_first s ps sc))
                     (snd (launch_first s ps sc)) = Inr (ps2, sc2)
         \<and> map state ps2 = [TAKEOFF, TAKEOFF, IDLE, IDLE, IDLE])"
  proof
    assume "map state ps = [IDLE, IDLE, IDLE, IDLE, IDLE]"
    then have "map state (fst (launch_first s (fst (launch_first s ps sc))
                                 (snd (launch_first s ps sc))))
                 = [TAKEOFF, TAKEOFF, IDLE, IDLE, IDLE]"
      by (rule twice)
    then show "\<exists>ps2 sc2. Ship_mouseClicked w2 False s (fst (launch_first s ps sc))
                     (snd (launch_first s ps sc)) = Inr (ps2, sc2)
         \<and> map state ps2 = [TAKEOFF, TAKEOFF, IDLE, IDLE, IDLE]"
      by (simp add: click) (metis prod.collapse)
  qed
  show ?thesis
    apply (rule exI [where x = "fst (launch_first s ps sc)"])
    apply (rule exI [where x = "snd (launch_first s ps sc)"])
    using first second by (simp add: click)
qed

theorem right_click_launches_first_ready_witness:
  "ship_planes ship_ready = bound
   \<and> map state (planes game_ready) = [IDLE, IDLE, IDLE, IDLE, IDLE]
   \<and> (\<exists>g1 g2. game_mouseClicked (\<lambda>p. p) 10 20 False game_ready = Inr g1
         \<and> game_mouseClicked (\<lambda>p. p) 30 40 False g1 = Inr g2
         \<and> map state (planes g1) = [TAKEOFF, IDLE, IDLE, IDLE, IDLE]
         \<and> map state (planes g2) = [TAKEOFF, TAKEOFF, IDLE, IDLE, IDLE])"
proof -
  have b: "ship_planes ship_ready = bound" by (simp add: ship_ready_def)
  have i: "map state (planes game_ready) = [IDLE, IDLE, IDLE, IDLE, IDLE]"
    by (simp add: game_ready_def plane_ready_def numeral_eq_Suc)
  from right_click_launches_first_ready
    [OF b, of "Vector2 10 20" "planes game_ready" "scene game_ready" "Vector2 30 40"] i
  obtain ps1 sc1 ps2 sc2 where c:
    "Ship_mouseClicked (Vector2 10 20) False ship_ready (planes game_ready) (scene game_ready)
       = Inr (ps1, sc1)"
    "Ship_mouseClicked (Vector2 30 40) False ship_ready ps1 sc1 = Inr (ps2, sc2)"
    "map state ps2 = [TAKEOFF, TAKEOFF, IDLE, IDLE, IDLE]"
    by auto
  have s: "ship game_ready = ship_ready" by (simp add: game_ready_def)
  have f: "map state ps1 = [TAKEOFF, IDLE, IDLE, IDLE, IDLE]"
    using c(1) b
    by (auto simp add: Ship_mouseClicked_def game_ready_def plane_ready_def numeral_eq_Suc
        readyToFly_def split_beta launch_result)
  have "game_mouseClicked (\<lambda>p. p) 10 20 False game_ready
          = Inr (game_ready\<lparr>planes := ps1, scene := sc1\<rparr>)"
    using c(1) by (simp add: game_mouseClicked_def s)
  moreover have "game_mouseClicked (\<lambda>p. p) 30 40 False (game_ready\<lparr>planes := ps1, scene := sc1\<rparr>)
          = Inr (game_ready\<lparr>planes := ps2, scene := sc2\<rparr>)"
    using c(2) by (simp add: game_mouseClicked_def s)
  ultimately show ?thesis
    using b i c(3) f by simp
qed

section \<open>Hovering\<close>

lemma Aircraft_update_FLY:
  "state a = FLY \<Longrightarrow> Aircraft_update owner dt a sc = simulateFlight dt (fly dt a) sc"
  by (simp add: Aircraft_update_def)

lemma Aircraft_update_HOVER:
  "state a = HOVER \<Longrightarrow> Aircraft_update owner dt a sc = simulateFlight dt (hover dt a) sc"
  by (simp add: Aircraft_update_def)

text \<open>
  C6. An update in state FLY enters HOVER exactly when the distance to the target is at
  most the hover radius, and then the hover angle is the heading before the update plus
  the constant \<open>PI\<close> of the program. An update in state HOVER leaves for FLY exactly when
  the distance to the target exceeds the hover radius plus \<open>0.000001\<close>; when it stays in
  HOVER, the heading becomes the old hover angle plus \<open>PI / 2\<close>, the hover angle advances
  by \<open>2.5 * dt\<close>, and the position becomes the target plus the hover radius times
  \<open>(cos, sin)\<close> of the advanced hover angle.
\<close>

theorem hover_entry_and_orbit:
  "(state a = FLY \<longrightarrow>
      (state (fst (Aircraft_update owner dt a sc)) = HOVER \<longleftrightarrow>
         length_Vector2 (vec_sub (targetPosition a) (position a)) \<le> hoverRaduis a)
      \<and> (state (fst (Aircraft_update owner dt a sc)) = HOVER \<longrightarrow>
           hoverAngle (fst (Aircraft_update owner dt a sc)) = angle a + PI))
   \<and> (state a = HOVER \<longrightarrow>
        (state (fst (Aircraft_update owner dt a sc)) = FLY \<longleftrightarrow>
           length_Vector2 (vec_sub (targetPosition a) (position a)) > hoverRaduis a + 0.000001)
        \<and> (state (fst (Aircraft_update owner dt a sc)) = HOVER \<longrightarrow>
             angle (fst (Aircraft_update owner dt a sc)) = hoverAngle a + PI / 2
             \<and> hoverAngle (fst (Aircraft_update owner dt a sc)) = hoverAngle a + 2.5 * dt
             \<and> position (fst (Aircraft_update owner dt a sc)) =
                 vec_add (targetPosition a)
                   (vec_scale (hoverRaduis a)
                      (Vector2 (cos (hoverAngle a + 2.5 * dt)) (sin (hoverAngle a + 2.5 * dt))))))"
  by (auto simp add: Aircraft_update_FLY Aircraft_update_HOVER simulateFlight_keeps
      fly_def hover_def Let_def vec_add_def vec_scale_def aircraft_ANGULAR_SPEED_def)

theorem hover_entry_and_orbit_witness:
  "state (plane_ready\<lparr>state := FLY\<rparr>) = FLY
   \<and> state (fst (Aircraft_update ship_ready 1 (plane_ready\<lparr>state := FLY\<rparr>) (scene game_ready))) = HOVER
   \<and> hoverAngle (fst (Aircraft_update ship_ready 1 (plane_ready\<lparr>state := FLY\<rparr>) (scene game_ready))) = PI
   \<and> state (plane_ready\<lparr>state := HOVER\<rparr>) = HOVER
   \<and> state (fst (Aircraft_update ship_ready 1 (plane_ready\<lparr>state := HOVER\<rparr>) (scene game_ready))) = HOVER
   \<and> angle (fst (Aircraft_update ship_ready 1 (plane_ready\<lparr>state := HOVER\<rparr>) (scene game_ready))) = PI / 2
   \<and> hoverAngle (fst (Aircraft_update ship_ready 1 (plane_ready\<lparr>state := HOVER\<rparr>) (scene game_ready))) = 2.5
   \<and> position (fst (Aircraft_update ship_ready 1 (plane_ready\<lparr>state := HOVER\<rparr>) (scene game_ready))) =
       Vector2 (cos 2.5) (sin 2.5)"
proof -
  have f: "state (fst (Aircraft_update ship_ready 1 (plane_ready\<lparr>state := FLY\<rparr>) (scene game_ready))) = HOVER"
    by (simp add: run_defs plane_ready_def)
  have h: "state (fst (Aircraft_update ship_ready 1 (plane_ready\<lparr>state := HOVER\<rparr>) (scene game_ready))) = HOVER"
    by (simp add: run_defs plane_ready_def)
  from hover_entry_and_orbit [of "plane_ready\<lparr>state := FLY\<rparr>" ship_ready 1 "scene game_ready"]
    hover_entry_and_orbit [of "plane_ready\<lparr>state := HOVER\<rparr>" ship_ready 1 "scene game_ready"]
    f h
  show ?thesis
    by (simp add: plane_ready_def vec_add_def vec_scale_def)
qed

section \<open>Restarting the game\<close>

lemma length_launch_first: "length (fst (launch_first s ps sc)) = length ps"
  by (induction ps) (simp_all add: split_beta)

lemma length_deinit_planes: "length (fst (deinit_planes ps sc)) = length ps"
  using deinit_planes_effect [of ps sc] by (metis length_map)

lemma length_planes_event:
  "game_event stw e g = Inr g1 \<Longrightarrow> length (planes g1) = length (planes g)"
proof (cases e)
  case (Update dt)
  assume "game_event stw e g = Inr g1"
  with Update show ?thesis
    by (auto simp add: planes_game_update length_update_planes)
next
  case (KeyPressed k)
  assume "game_event stw e g = Inr g1"
  with KeyPressed show ?thesis
    by (auto simp add: game_keyPressed_def split: sum.splits)
next
  case (KeyReleased k)
  assume "game_event stw e g = Inr g1"
  with KeyReleased show ?thesis
    by (auto simp add: game_keyReleased_def split: sum.splits)
next
  case (MouseClicked px py l)
  assume "game_event stw e g = Inr g1"
  with MouseClicked show ?thesis
    by (auto simp add: game_mouseClicked_def Ship_mouseClicked_def Let_def split_beta
        length_launch_first split: if_splits)
qed

lemma reachable_five_planes: "reachable g \<Longrightarrow> length (planes g) = 5"
proof (induction rule: reachable.induct)
  case (start g)
  then show ?case by (simp add: game_init_planes game_start_def)
next
  case (event g e stw g1)
  then show ?case using length_planes_event by simp
next
  case (restart g g1)
  then show ?case
    by (simp add: game_init_planes game_deinit_parts length_deinit_planes)
qed

lemma Aircraft_init_masked:
  "(Aircraft_init a)\<lparr>mesh := None, targetPosition := Vector2 0 0\<rparr> = plane_ready"
  by (cases a) (simp add: Aircraft_init_def plane_ready_def)

lemma game_init_after_deinit:
  "game_init (game_deinit g) =
     Inr \<lparr>ship = (fst (Ship_deinit (ship g) (scene g)))
                   \<lparr>ship_mesh := Some (next_mesh (scene (game_deinit g))),
                    ship_position := Vector2 0 0, ship_angle := 0,
                    input := (\<lambda>key. False), ship_planes := bound\<rparr>,
          planes = map Aircraft_init (planes (game_deinit g)),
          scene = snd (createShipMesh (scene (game_deinit g)))\<rparr>"
  by (simp add: game_init_def Ship_init_def game_deinit_def Ship_deinit_def split_beta
      createShipMesh_def)

lemma restart_keeps_stale_handle:
  assumes "planes g \<noteq> []" "\<not> inFlight (hd (planes g))" "game_init (game_deinit g) = Inr g2"
  shows "mesh (hd (planes g2)) = mesh (hd (planes g))"
proof -
  from assms(1) obtain a rest where p: "planes g = a # rest" by (cases "planes g") auto
  with assms(2) have "\<not> inFlight a" by simp
  then have "hd (planes (game_deinit g)) = a \<and> planes (game_deinit g) \<noteq> []"
    by (simp add: game_deinit_parts p split_beta)
  with assms(3) p show ?thesis
    by (simp add: game_init_planes hd_map Aircraft_init_keeps_mesh)
qed

lemma restart_keeps_ship_speed:
  "game_init (game_deinit g) = Inr g2 \<Longrightarrow> ship_linearSpeed (ship g2) = ship_linearSpeed (ship g)"
  by (auto simp add: game_init_after_deinit Ship_deinit_def)

lemma update_planes_scene:
  "map mesh (fst (update_planes owner dt ps sc)) = map mesh ps
   \<and> dom (meshes (snd (update_planes owner dt ps sc))) \<subseteq> dom (meshes sc)
   \<and> dom (meshes sc) - dom (meshes (snd (update_planes owner dt ps sc)))
        \<subseteq> set (plane_handles ps)"
proof (induction ps arbitrary: sc)
  case Nil
  then show ?case by simp
next
  case (Cons a ps)
  let ?sc1 = "snd (Aircraft_update owner dt a sc)"
  have d: "dom (meshes ?sc1) \<subseteq> dom (meshes sc)"
    "dom (meshes sc) - dom (meshes ?sc1) \<subseteq> set_option (mesh a)"
    by (auto simp add: Aircraft_update_dom)
  have h: "set_option (mesh a) \<subseteq> set (plane_handles (a # ps))"
    "set (plane_handles ps) \<subseteq> set (plane_handles (a # ps))"
    by (auto split: option.splits)
  from Cons [of ?sc1] d h show ?case
    by (simp add: split_beta Aircraft_update_mesh) blast
qed

lemma reachable_next_mesh_aux:
  "next_mesh (snd (update_planes owner dt ps sc)) = next_mesh sc"
  by (induction ps arbitrary: sc) (simp_all add: split_beta Aircraft_update_next_mesh)

lemma flying_handles_live:
  "visuals_ok sc ps \<Longrightarrow> flying_handles ps \<subseteq> dom (meshes sc)"
  by (auto simp add: visuals_ok_def visual_ok_def flying_handles_def split: option.splits)

lemma live_handle_flying:
  assumes "visuals_ok sc ps" "a \<in> set ps" "mesh a = Some h" "h \<in> dom (meshes sc)"
  shows "h \<in> flying_handles ps"
proof -
  from assms(1,2) have "visual_ok sc a" by (simp add: visuals_ok_def)
  with assms(3,4) have "inFlight a" by (auto simp add: visual_ok_def)
  with assms(2,3) show ?thesis by (auto simp add: flying_handles_def)
qed

lemma flying_handles_subset: "flying_handles ps \<subseteq> set (plane_handles ps)"
  using plane_handles_member by (auto simp add: flying_handles_def)

lemma scene_ok_kept:
  assumes ok: "scene_ok g"
    and v: "visuals_ok (scene g1) (planes g1)"
    and s: "ship_mesh (ship g1) = ship_mesh (ship g)"
    and m: "map mesh (planes g1) = map mesh (planes g)"
    and n: "next_mesh (scene g1) = next_mesh (scene g)"
    and d: "dom (meshes (scene g1)) \<subseteq> dom (meshes (scene g))"
    and r: "dom (meshes (scene g)) - dom (meshes (scene g1)) \<subseteq> set (plane_handles (planes g))"
  shows "scene_ok g1"
proof -
  from ok obtain hs where hs: "ship_mesh (ship g) = Some hs" "hs < next_mesh (scene g)"
    "hs \<notin> set (plane_handles (planes g))"
    "dom (meshes (scene g)) = insert hs (flying_handles (planes g))"
    by (auto simp add: scene_ok_def)
  have ph: "plane_handles (planes g1) = plane_handles (planes g)"
    using m by (rule plane_handles_map_mesh)
  have "hs \<in> dom (meshes (scene g))" using hs(4) by simp
  with r hs(3) have live: "hs \<in> dom (meshes (scene g1))" by blast
  have "h \<in> insert hs (flying_handles (planes g1))" if h: "h \<in> dom (meshes (scene g1))" for h
  proof (cases "h = hs")
    case True
    then show ?thesis by simp
  next
    case False
    from h d have "h \<in> dom (meshes (scene g))" by blast
    with hs(4) False have "h \<in> flying_handles (planes g)" by simp
    then have "Some h \<in> set (map mesh (planes g))"
      by (force simp add: flying_handles_def)
    then have "Some h \<in> set (map mesh (planes g1))" by (simp only: m)
    then obtain a where a: "a \<in> set (planes g1)" "mesh a = Some h" by auto
    from v a h have "h \<in> flying_handles (planes g1)" by (rule live_handle_flying)
    then show ?thesis by simp
  qed
  with live flying_handles_live [OF v]
  have "dom (meshes (scene g1)) = insert hs (flying_handles (planes g1))" by blast
  with hs s n ph show ?thesis by (simp add: scene_ok_def)
qed


lemma scene_ok_launch_first:
  assumes ok: "scene_ok g"
    and v: "visuals_ok (scene g) (planes g)"
    and v1: "visuals_ok (scene g1) (planes g1)"
    and s: "ship g1 = ship g"
    and p: "planes g1 = fst (launch_first (ship g) (planes g) (scene g))"
    and c: "scene g1 = snd (launch_first (ship g) (planes g) (scene g))"
  shows "scene_ok g1"
proof (cases "\<exists>a \<in> set (planes g). readyToFly a")
  case False
  then have "launch_first (ship g) (planes g) (scene g) = (planes g, scene g)"
    by (simp add: launch_first_none)
  with ok s p c show ?thesis by (simp add: scene_ok_def)
next
  case True
  then obtain front a rest
    where sp: "planes g = front @ a # rest" "readyToFly a" "\<forall>b \<in> set front. \<not> readyToFly b"
    using split_list_first_prop [of "planes g" readyToFly] by blast
  let ?a1 = "fst (launch (ship g) a (scene g))"
  let ?n = "next_mesh (scene g)"
  have l: "planes g1 = front @ ?a1 # rest" "scene g1 = snd (launch (ship g) a (scene g))"
    using launch_first_split [OF sp(3) sp(2), of "ship g" rest "scene g"] p c sp(1) by simp_all
  from ok obtain hs where hs: "ship_mesh (ship g) = Some hs" "hs < ?n"
    "hs \<notin> set (plane_handles (planes g))"
    "dom (meshes (scene g)) = insert hs (flying_handles (planes g))"
    by (auto simp add: scene_ok_def)
  have na: "\<not> inFlight a" using sp(2) by (simp add: readyToFly_def inFlight_def)
  have dom1: "dom (meshes (scene g1)) = insert ?n (dom (meshes (scene g)))"
    and next1: "next_mesh (scene g1) = Suc ?n"
    by (simp_all add: l launch_result)
  have fl: "flying_handles (planes g1) = insert ?n (flying_handles (planes g))"
    using na by (auto simp add: flying_handles_def l sp(1) launch_result inFlight_def)
  have "set (plane_handles (planes g1)) \<subseteq> insert ?n (set (plane_handles (planes g)))"
    by (auto simp add: l sp(1) launch_result split: option.splits)
  with hs(2,3) have "hs \<notin> set (plane_handles (planes g1))" by auto
  with hs s dom1 next1 fl show ?thesis
    by (auto simp add: scene_ok_def)
qed

lemma scene_ok_event:
  assumes e: "game_event stw e g = Inr g1" and ok: "scene_ok g"
    and v: "visuals_ok (scene g) (planes g)"
  shows "scene_ok g1"
proof -
  have v1: "visuals_ok (scene g1) (planes g1)"
    using e v by (rule visuals_ok_event)
  show ?thesis
  proof (cases e)
    case (Update dt)
    let ?s = "fst (Ship_update dt (ship g) (scene g))"
    let ?sc = "snd (Ship_update dt (ship g) (scene g))"
    have g1: "g1 = game_update dt g" using e Update by simp
    have sm: "ship_mesh (ship g1) = ship_mesh (ship g)"
      by (simp add: g1 ship_game_update Ship_update_def Let_def)
    have u: "map mesh (planes g1) = map mesh (planes g)"
      "dom (meshes (scene g1)) \<subseteq> dom (meshes ?sc)"
      "dom (meshes ?sc) - dom (meshes (scene g1)) \<subseteq> set (plane_handles (planes g))"
      using update_planes_scene [of ?s dt "planes g" ?sc]
      by (simp_all add: g1 planes_game_update scene_game_update)
    have n: "next_mesh (scene g1) = next_mesh (scene g)"
      using reachable_next_mesh_aux [of ?s dt "planes g" ?sc]
      by (simp add: g1 scene_game_update Ship_update_scene)
    from ok v1 sm u(1) n show ?thesis
      by (rule scene_ok_kept) (use u in \<open>simp_all add: Ship_update_scene\<close>)
  next
    case (KeyPressed k)
    with e ok show ?thesis
      by (auto simp add: game_keyPressed_def Ship_keyPressed_def scene_ok_def split: if_splits)
  next
    case (KeyReleased k)
    with e ok show ?thesis
      by (auto simp add: game_keyReleased_def Ship_keyReleased_def scene_ok_def split: if_splits)
  next
    case (MouseClicked px py l)
    show ?thesis
    proof (cases l)
      case True
      with e MouseClicked have g1: "planes g1 = map (setTarget (stw (Vector2 px py))) (planes g)"
        "scene g1 = placeGoalMarker (vx (stw (Vector2 px py))) (vy (stw (Vector2 px py))) (scene g)"
        "ship g1 = ship g"
        by (auto simp add: game_mouseClicked_def Ship_mouseClicked_def Let_def split: if_splits)
      show ?thesis
        using ok v1
        by (rule scene_ok_kept)
          (simp_all add: g1 setTarget_def placeGoalMarker_def comp_def)
    next
      case False
      with e MouseClicked have g1: "planes g1 = fst (launch_first (ship g) (planes g) (scene g))"
        "scene g1 = snd (launch_first (ship g) (planes g) (scene g))" "ship g1 = ship g"
        by (auto simp add: game_mouseClicked_def Ship_mouseClicked_def Let_def split_beta
            split: if_splits)
      from ok v v1 g1(3) g1(1) g1(2) show ?thesis by (rule scene_ok_launch_first)
    qed
  qed
qed


lemma deinit_planes_dom:
  "dom (meshes (snd (deinit_planes ps sc))) = dom (meshes sc) - flying_handles ps"
proof (induction ps arbitrary: sc)
  case Nil
  then show ?case by (simp add: flying_handles_def)
next
  case (Cons a ps)
  have f: "flying_handles (a # ps) =
      (if inFlight a then set_option (mesh a) else {}) \<union> flying_handles ps"
    by (auto simp add: flying_handles_def)
  show ?case
    by (auto simp add: split_beta Cons f Aircraft_deinit_def destroyMesh_frame)
qed

lemma deinit_destroys_all:
  assumes "scene_ok g"
  shows "meshes (scene (game_deinit g)) = Map.empty"
proof -
  from assms obtain hs where hs: "ship_mesh (ship g) = Some hs"
    "dom (meshes (scene g)) = insert hs (flying_handles (planes g))"
    by (auto simp add: scene_ok_def)
  have "dom (meshes (scene (game_deinit g))) = {}"
    by (auto simp add: game_deinit_parts deinit_planes_dom Ship_deinit_def destroyMesh_frame hs)
  then show ?thesis by simp
qed

lemma flying_handles_init: "flying_handles (map Aircraft_init ps) = {}"
  by (auto simp add: flying_handles_def inFlight_def Aircraft_init_def)

lemma scene_ok_after_init:
  assumes i: "game_init g0 = Inr g1"
    and e: "meshes (scene g0) = Map.empty"
    and v1: "visuals_ok (scene g1) (planes g1)"
  shows "scene_ok g1
    \<and> meshes (scene g1) = [next_mesh (scene g0) \<mapsto> (ShipMesh, 0, 0, 0)]
    \<and> ship_mesh (ship g1) = Some (next_mesh (scene g0))"
proof -
  have p: "planes g1 = map Aircraft_init (planes g0)" using i by (rule game_init_planes)
  have sc: "meshes (scene g1) = [next_mesh (scene g0) \<mapsto> (ShipMesh, 0, 0, 0)]"
    "ship_mesh (ship g1) = Some (next_mesh (scene g0))"
    "next_mesh (scene g1) = Suc (next_mesh (scene g0))"
    using i e by (auto simp add: game_init_def Ship_init_def createShipMesh_def split: if_splits)
  have "h < next_mesh (scene g0)" if "h \<in> set (plane_handles (planes g1))" for h
  proof -
    from that obtain b where b: "b \<in> set (planes g1)" "mesh b = Some h"
      using plane_handles_owner by blast
    with v1 have "visual_ok (scene g1) b" by (simp add: visuals_ok_def)
    with b(2) have "h < next_mesh (scene g1)" "(h \<in> dom (meshes (scene g1))) = inFlight b"
      by (simp_all add: visual_ok_def)
    moreover have "\<not> inFlight b" using b(1) by (auto simp add: p inFlight_def Aircraft_init_def)
    ultimately show ?thesis by (auto simp add: sc less_Suc_eq)
  qed
  then have "next_mesh (scene g0) \<notin> set (plane_handles (planes g1))" by blast
  with sc show ?thesis
    by (simp add: scene_ok_def p flying_handles_init)
qed

lemma reachable_scene_ok: "reachable g \<Longrightarrow> scene_ok g"
proof (induction rule: reachable.induct)
  case (start g)
  have "visuals_ok (scene g) (planes g)" using start by (rule visuals_ok_start)
  with start show ?case
    using scene_ok_after_init [of game_start g] by (simp add: game_start_def)
next
  case (event g e stw g1)
  then show ?case
    using scene_ok_event reachable_visuals_ok by blast
next
  case (restart g g1)
  have "visuals_ok (scene g1) (planes g1)"
    using reachable_visuals_ok [OF restart(1)] restart(2) by (rule visuals_ok_restart)
  with restart show ?case
    using scene_ok_after_init [of "game_deinit g" g1] deinit_destroys_all by blast
qed

text \<open>
  C4, as the code has it. From every reachable game, \<^verbatim>\<open>game::deinit\<close> destroys every
  mesh of the scene, and \<^verbatim>\<open>game::init\<close> after it raises no fault and gives a game that
  agrees with the game after \<^verbatim>\<open>game::init\<close> at process start in every field of every
  aircraft but the mesh pointer and the target position (so in the positions, angles,
  speeds, timers, hover radius and angle, and states, all IDLE), and in every field of
  the ship but the mesh pointer and the linear speed (so in the position, the angle and
  the key flags). As at process start, the scene holds one mesh and no other: a ship
  mesh, newly created, under the handle that the ship's mesh pointer holds.
\<close>

theorem restart_restores:
  "reachable g \<Longrightarrow>
     game_init game_start = Inr game_ready
     \<and> meshes (scene game_ready) = [0 \<mapsto> (ShipMesh, 0, 0, 0)]
     \<and> meshes (scene (game_deinit g)) = Map.empty
     \<and> (\<exists>g1 h. game_init (game_deinit g) = Inr g1
          \<and> map (\<lambda>a. a\<lparr>mesh := None, targetPosition := Vector2 0 0\<rparr>) (planes g1) =
              planes game_ready
          \<and> (\<forall>a \<in> set (planes g1). state a = IDLE)
          \<and> (ship g1)\<lparr>ship_mesh := None, ship_linearSpeed := 0\<rparr> =
              (ship game_ready)\<lparr>ship_mesh := None\<rparr>
          \<and> ship_mesh (ship g1) = Some h
          \<and> meshes (scene g1) = [h \<mapsto> (ShipMesh, 0, 0, 0)])"
proof -
  assume r: "reachable g"
  obtain g1 where g1: "game_init (game_deinit g) = Inr g1"
    by (simp add: game_init_after_deinit)
  have p: "planes g1 = map Aircraft_init (planes (game_deinit g))"
    using g1 by (rule game_init_planes)
  have len: "length (planes (game_deinit g)) = 5"
    using reachable_five_planes [OF r] by (simp add: game_deinit_parts length_deinit_planes)
  have "map (\<lambda>a. a\<lparr>mesh := None, targetPosition := Vector2 0 0\<rparr>) (planes g1) =
          replicate (length (planes (game_deinit g))) plane_ready"
    by (simp add: p Aircraft_init_masked map_replicate_const comp_def)
  then have planes_eq: "map (\<lambda>a. a\<lparr>mesh := None, targetPosition := Vector2 0 0\<rparr>) (planes g1) =
          planes game_ready"
    by (simp add: len game_ready_def)
  have idle: "\<forall>a \<in> set (planes g1). state a = IDLE"
    by (auto simp add: p Aircraft_init_def)
  have ship_eq: "(ship g1)\<lparr>ship_mesh := None, ship_linearSpeed := 0\<rparr> =
      (ship game_ready)\<lparr>ship_mesh := None\<rparr>"
    using g1 by (cases "ship g")
      (auto simp add: game_init_after_deinit Ship_deinit_def game_ready_def ship_ready_def)
  have torn: "meshes (scene (game_deinit g)) = Map.empty"
    using reachable_scene_ok [OF r] by (rule deinit_destroys_all)
  have v1: "visuals_ok (scene g1) (planes g1)"
    using reachable_visuals_ok [OF r] g1 by (rule visuals_ok_restart)
  have one: "ship_mesh (ship g1) = Some (next_mesh (scene (game_deinit g)))"
    "meshes (scene g1) = [next_mesh (scene (game_deinit g)) \<mapsto> (ShipMesh, 0, 0, 0)]"
    using scene_ok_after_init [OF g1 torn v1] by simp_all
  have fresh: "meshes (scene game_ready) = [0 \<mapsto> (ShipMesh, 0, 0, 0)]"
    by (simp add: game_ready_def)
  from g1 planes_eq idle ship_eq torn one fresh show ?thesis
    by (simp add: game_init_start)
qed

theorem restart_restores_witness:
  "reachable game_ready
   \<and> meshes (scene (game_deinit game_ready)) = Map.empty
   \<and> (\<exists>g1 h. game_init (game_deinit game_ready) = Inr g1
        \<and> map (\<lambda>a. a\<lparr>mesh := None, targetPosition := Vector2 0 0\<rparr>) (planes g1) =
            planes game_ready
        \<and> (ship g1)\<lparr>ship_mesh := None, ship_linearSpeed := 0\<rparr> =
            (ship game_ready)\<lparr>ship_mesh := None\<rparr>
        \<and> ship_mesh (ship g1) = Some h
        \<and> meshes (scene g1) = [h \<mapsto> (ShipMesh, 0, 0, 0)])"
  using restart_restores [OF reachable_ready] reachable_ready by blast

text \<open>
  C4 fails for the fields that \<^verbatim>\<open>Aircraft::init\<close> and \<^verbatim>\<open>Ship::init\<close> do not set. After a
  left click at \<open>(3, 4)\<close> the restarted game has the target \<open>(3, 4)\<close> in every aircraft,
  where the game at process start has \<open>(0, 0)\<close>. After a frame with the forward key held
  the restarted ship has the linear speed \<open>0.5\<close>, where the ship at process start has
  \<open>0\<close>. After the run \<open>landing_events\<close> the first aircraft of the restarted game holds
  the handle \<open>1\<close> of its destroyed mesh, where the aircraft at process start holds the
  null pointer.
\<close>

theorem restart_differs:
  "(\<exists>g1 g2. game_mouseClicked (\<lambda>p. p) 3 4 True game_ready = Inr g1 \<and> reachable g1
       \<and> game_init (game_deinit g1) = Inr g2
       \<and> map targetPosition (planes g2) = replicate 5 (Vector2 3 4))
   \<and> map targetPosition (planes game_ready) = replicate 5 (Vector2 0 0)
   \<and> (\<exists>g1 g2. game_run (\<lambda>p. p) [KeyPressed KEY_FORWARD, Update 1] game_ready = Inr g1
       \<and> reachable g1 \<and> game_init (game_deinit g1) = Inr g2
       \<and> ship_linearSpeed (ship g2) = 0.5)
   \<and> ship_linearSpeed (ship game_ready) = 0
   \<and> (\<exists>g1 g2. game_run (\<lambda>p. p) landing_events game_ready = Inr g1
       \<and> reachable g1 \<and> game_init (game_deinit g1) = Inr g2
       \<and> mesh (hd (planes g2)) = Some 1)
   \<and> mesh (hd (planes game_ready)) = None"
proof (intro conjI)
  show "\<exists>g1 g2. game_mouseClicked (\<lambda>p. p) 3 4 True game_ready = Inr g1 \<and> reachable g1
       \<and> game_init (game_deinit g1) = Inr g2
       \<and> map targetPosition (planes g2) = replicate 5 (Vector2 3 4)"
  proof -
    obtain g1 where g1: "game_mouseClicked (\<lambda>p. p) 3 4 True game_ready = Inr g1"
      by (simp add: game_mouseClicked_def Ship_mouseClicked_def game_ready_def ship_ready_def)
    then have run: "game_run (\<lambda>p. p) [MouseClicked 3 4 True] game_ready = Inr g1" by simp
    have re: "reachable g1"
      using reachable_ready _ run by (rule reachable_run) simp
    obtain g2 where g2: "game_init (game_deinit g1) = Inr g2"
      by (simp add: game_init_after_deinit)
    have t: "map targetPosition (planes g1) = replicate 5 (Vector2 3 4)"
      using g1
      by (auto simp add: game_mouseClicked_def Ship_mouseClicked_def game_ready_def
          ship_ready_def plane_ready_def setTarget_def numeral_eq_Suc Let_def)
    have "map targetPosition (fst (deinit_planes ps sc)) = map targetPosition ps" for ps sc
      by (induction ps arbitrary: sc) (simp_all add: split_beta Aircraft_deinit_def)
    then have "map targetPosition (planes g2) = map targetPosition (planes g1)"
      using g2 by (simp add: game_init_planes game_deinit_parts comp_def Aircraft_init_def)
    with g1 re g2 t show ?thesis by auto
  qed
  show "map targetPosition (planes game_ready) = replicate 5 (Vector2 0 0)"
    by (simp add: game_ready_def plane_ready_def)
  show "\<exists>g1 g2. game_run (\<lambda>p. p) [KeyPressed KEY_FORWARD, Update 1] game_ready = Inr g1
       \<and> reachable g1 \<and> game_init (game_deinit g1) = Inr g2
       \<and> ship_linearSpeed (ship g2) = 0.5"
  proof -
    obtain g1 where g1: "game_run (\<lambda>p. p) [KeyPressed KEY_FORWARD, Update 1] game_ready = Inr g1"
      by (simp add: game_keyPressed_def Ship_keyPressed_def KEY_FORWARD_def KEY_COUNT_def)
    have re: "reachable g1"
      using reachable_ready _ g1 by (rule reachable_run) simp
    obtain g2 where g2: "game_init (game_deinit g1) = Inr g2"
      by (simp add: game_init_after_deinit)
    have "ship_linearSpeed (ship g1) = 0.5"
      using g1
      by (auto simp add: game_keyPressed_def Ship_keyPressed_def KEY_FORWARD_def KEY_COUNT_def
          ship_game_update Ship_update_def Let_def ship_LINEAR_SPEED_def)
    with restart_keeps_ship_speed [OF g2] g1 re g2 show ?thesis by auto
  qed
  show "ship_linearSpeed (ship game_ready) = 0"
    by (simp add: game_ready_def ship_ready_def)
  show "\<exists>g1 g2. game_run (\<lambda>p. p) landing_events game_ready = Inr g1
       \<and> reachable g1 \<and> game_init (game_deinit g1) = Inr g2
       \<and> mesh (hd (planes g2)) = Some 1"
  proof -
    obtain g1 where g1: "game_run (\<lambda>p. p) landing_events game_ready = Inr g1" "reachable g1"
      "planes g1 \<noteq> []"
      "hd (planes g1) = airborne (Vector2 0 0) REFUEL (Vector2 4 0) 0 2 13 13 (PI + 20)"
      using landing_run by blast
    obtain g2 where g2: "game_init (game_deinit g1) = Inr g2"
      by (simp add: game_init_after_deinit)
    have "\<not> inFlight (hd (planes g1))" "mesh (hd (planes g1)) = Some 1"
      by (simp_all add: g1(4) airborne_def inFlight_def)
    with restart_keeps_stale_handle [OF g1(3) _ g2] g1(1,2) g2 show ?thesis by auto
  qed
  show "mesh (hd (planes game_ready)) = None"
    by (simp add: game_ready_def plane_ready_def numeral_eq_Suc)
qed

end
